theory Spec2Isabelle
  imports Complex_Main
begin

section \<open>Values of the annotation canvas\<close>

text \<open>
  The tool names and the annotation type tags are the same string constants in the
  source ('select', 'marker', 'text', 'rect', 'circle'); the type of the shape being drawn
  is assigned from the active tool.  Style tags are the keys of ANNOTATION_STYLES.
  JavaScript numbers (pointer coordinates, sizes) are modelled as real numbers: the
  rounding of floating point arithmetic is not part of the model.
\<close>

datatype tag = SelectT | MarkerT | TextT | RectT | CircleT

datatype style_tag = Primary | Warning | Info

datatype error = TypeError

text \<open>
  An annotation object.  The keys id, type, x and y are present in every annotation the
  canvas creates; the other keys depend on the type, and a key the object literal does not
  have is None.  The type of the id differs between the components (a string in
  KonvaCanvas.jsx, a number in the earlier revision, absent in AnnotationCanvas.jsx).
\<close>

record 'id annotation =
  ann_id :: 'id
  ann_type :: tag
  ann_x :: real
  ann_y :: real
  ann_number :: "nat option"
  ann_label :: "string option"
  ann_style :: "style_tag option"
  ann_text :: "string option"
  ann_width :: "real option"
  ann_height :: "real option"
  ann_radius :: "real option"

text \<open>
  The shape being drawn.  The keys x, y, width and height are only ever written together
  (the rect branch of the pointer-move handler), so they form one optional group; radius
  is written by the circle branch.
\<close>

record temp_shape =
  ts_type :: tag
  startX :: real
  startY :: real
  ts_box :: "(real \<times> real \<times> real \<times> real) option"
  ts_radius :: "real option"

text \<open>
  The state a canvas component works on: the props tool and annotations (owned by the
  parent, replaced through setAnnotations) and the component's own useState cells.
\<close>

record 'id canvas =
  tool :: tag
  annotations :: "'id annotation list"
  selectedId :: "'id option"
  isDrawing :: bool
  tempShape :: "temp_shape option"
  dimensions :: "nat \<times> nat"
  img :: "(nat \<times> nat) option"

text \<open>
  The answer of window.prompt: None is the cancellation (null), Some s the string typed.
  orEmpty is the expression (prompt(...) || ''): null and the empty string are falsy.
\<close>

definition orEmpty :: "string option \<Rightarrow> string" where
  "orEmpty response = (case response of None \<Rightarrow> [] | Some s \<Rightarrow> if s = [] then [] else s)"

subsection \<open>Decimal rendering of Date.now() in a template literal\<close>

definition digit :: "nat \<Rightarrow> char" where
  "digit d = ''0123456789'' ! d"

function decimal :: "nat \<Rightarrow> string" where
  "decimal n = (if n < 10 then [digit n] else decimal (n div 10) @ [digit (n mod 10)])"
  by pat_completeness auto
termination
  by (relation "measure (\<lambda>n. n)") auto

declare decimal.simps [simp del]

subsection \<open>Moving an annotation (shared by the Konva components)\<close>

text \<open>
  The object spread (ann, then newProps): every key of newProps wins, a key only ann has
  is kept.
\<close>

definition orElse :: "'a option \<Rightarrow> 'a option \<Rightarrow> 'a option" where
  "orElse new old = (case new of Some v \<Rightarrow> Some v | None \<Rightarrow> old)"

definition spread :: "'id annotation \<Rightarrow> 'id annotation \<Rightarrow> 'id annotation" where
  "spread ann newProps =
     \<lparr> ann_id = ann_id newProps, ann_type = ann_type newProps,
       ann_x = ann_x newProps, ann_y = ann_y newProps,
       ann_number = orElse (ann_number newProps) (ann_number ann),
       ann_label = orElse (ann_label newProps) (ann_label ann),
       ann_style = orElse (ann_style newProps) (ann_style ann),
       ann_text = orElse (ann_text newProps) (ann_text ann),
       ann_width = orElse (ann_width newProps) (ann_width ann),
       ann_height = orElse (ann_height newProps) (ann_height ann),
       ann_radius = orElse (ann_radius newProps) (ann_radius ann) \<rparr>"

definition handleAnnotationChange ::
  "'id \<Rightarrow> 'id annotation \<Rightarrow> 'id annotation list \<Rightarrow> 'id annotation list" where
  "handleAnnotationChange i newProps anns =
     map (\<lambda>ann. if ann_id ann = i then spread ann newProps else ann) anns"

text \<open>
  onDragEnd of NumberMarker, TextAnnotation, RectAnnotation and CircleAnnotation, with
  onChange bound to handleAnnotationChange(annotation.id, newProps): the node's final
  position (ex, ey) is written over a copy of the annotation prop.
\<close>

definition onDragEnd ::
  "'id annotation \<Rightarrow> real \<Rightarrow> real \<Rightarrow> 'id annotation list \<Rightarrow> 'id annotation list" where
  "onDragEnd annotation ex ey anns =
     handleAnnotationChange (ann_id annotation) (annotation\<lparr>ann_x := ex, ann_y := ey\<rparr>) anns"

section \<open>KonvaCanvas.jsx\<close>

definition rectCommit :: "real \<Rightarrow> temp_shape \<Rightarrow> (real \<times> real \<times> real \<times> real) option" where
  "rectCommit c ts =
     (case ts_box ts of
        None \<Rightarrow> None
      | Some (bx, by, w, h) \<Rightarrow>
          if ts_type ts = RectT \<and> w > c \<and> h > c then Some (bx, by, w, h) else None)"

definition circleCommit :: "real \<Rightarrow> temp_shape \<Rightarrow> real option" where
  "circleCommit c ts =
     (case ts_radius ts of
        None \<Rightarrow> None
      | Some r \<Rightarrow> if ts_type ts = CircleT \<and> r > c then Some r else None)"

definition markerCount :: "'id annotation list \<Rightarrow> nat" where
  "markerCount anns = length (filter (\<lambda>a. ann_type a = MarkerT) anns)"

definition newMarker :: "'id \<Rightarrow> real \<Rightarrow> real \<Rightarrow> nat \<Rightarrow> string \<Rightarrow> 'id annotation" where
  "newMarker i px py n l =
     \<lparr> ann_id = i, ann_type = MarkerT, ann_x = px, ann_y = py, ann_number = Some n,
       ann_label = Some l, ann_style = Some Primary, ann_text = None, ann_width = None,
       ann_height = None, ann_radius = None \<rparr>"

definition newText :: "'id \<Rightarrow> real \<Rightarrow> real \<Rightarrow> string \<Rightarrow> 'id annotation" where
  "newText i px py s =
     \<lparr> ann_id = i, ann_type = TextT, ann_x = px, ann_y = py, ann_number = None,
       ann_label = None, ann_style = None, ann_text = Some s, ann_width = None,
       ann_height = None, ann_radius = None \<rparr>"

definition newRect :: "'id \<Rightarrow> real \<Rightarrow> real \<Rightarrow> real \<Rightarrow> real \<Rightarrow> 'id annotation" where
  "newRect i bx by w h =
     \<lparr> ann_id = i, ann_type = RectT, ann_x = bx, ann_y = by, ann_number = None,
       ann_label = None, ann_style = Some Warning, ann_text = None, ann_width = Some w,
       ann_height = Some h, ann_radius = None \<rparr>"

definition newCircle :: "'id \<Rightarrow> real \<Rightarrow> real \<Rightarrow> real \<Rightarrow> 'id annotation" where
  "newCircle i cx cy r =
     \<lparr> ann_id = i, ann_type = CircleT, ann_x = cx, ann_y = cy, ann_number = None,
       ann_label = None, ann_style = Some Warning, ann_text = None, ann_width = None,
       ann_height = None, ann_radius = Some r \<rparr>"

text \<open>
  handleStageMouseDown.  onStage is the test (e.target === e.target.getStage());
  pointerPosition is the value of stage.getPointerPosition(), null being None; response
  is what window.prompt returns if it is shown; now is the value of Date.now().  A read of
  a property of null throws a TypeError; the state updates queued before the throw are
  kept with the error.
\<close>

definition handleStageMouseDown ::
  "bool \<Rightarrow> (real \<times> real) option \<Rightarrow> string option \<Rightarrow> nat \<Rightarrow> string canvas
     \<Rightarrow> (error \<times> string canvas) + string canvas" where
  "handleStageMouseDown onStage pointerPosition response now st =
     (if \<not> onStage then Inr st
      else
        let st1 = st\<lparr>selectedId := None\<rparr> in
        if tool st = MarkerT then
          (let number = markerCount (annotations st) + 1;
               label = orEmpty response
           in case pointerPosition of
                None \<Rightarrow> Inl (TypeError, st1)
              | Some (px, py) \<Rightarrow>
                  Inr (st1\<lparr>annotations := annotations st @
                         [newMarker (''marker-'' @ decimal now) px py number label]\<rparr>))
        else if tool st = TextT then
          (case response of
             None \<Rightarrow> Inr st1
           | Some s \<Rightarrow>
               if s = [] then Inr st1
               else
                 (case pointerPosition of
                    None \<Rightarrow> Inl (TypeError, st1)
                  | Some (px, py) \<Rightarrow>
                      Inr (st1\<lparr>annotations := annotations st @
                             [newText (''text-'' @ decimal now) px py s]\<rparr>)))
        else if tool st = RectT \<or> tool st = CircleT then
          (case pointerPosition of
             None \<Rightarrow> Inl (TypeError, st1\<lparr>isDrawing := True\<rparr>)
           | Some (px, py) \<Rightarrow>
               Inr (st1\<lparr>isDrawing := True,
                         tempShape := Some \<lparr> ts_type = tool st, startX = px, startY = py,
                                             ts_box = None, ts_radius = None \<rparr>\<rparr>))
        else Inr st1)"

definition handleStageMouseMove ::
  "(real \<times> real) option \<Rightarrow> 'id canvas \<Rightarrow> (error \<times> 'id canvas) + 'id canvas" where
  "handleStageMouseMove pointerPosition st =
     (if \<not> isDrawing st then Inr st
      else
        case tempShape st of
          None \<Rightarrow> Inl (TypeError, st)
        | Some ts \<Rightarrow>
            if ts_type ts = RectT then
              (case pointerPosition of
                 None \<Rightarrow> Inl (TypeError, st)
               | Some (px, py) \<Rightarrow>
                   Inr (st\<lparr>tempShape := Some (ts\<lparr>ts_box :=
                          Some (min px (startX ts), min py (startY ts),
                                \<bar>px - startX ts\<bar>, \<bar>py - startY ts\<bar>)\<rparr>)\<rparr>))
            else if ts_type ts = CircleT then
              (case pointerPosition of
                 None \<Rightarrow> Inl (TypeError, st)
               | Some (px, py) \<Rightarrow>
                   let radius = sqrt ((px - startX ts)\<^sup>2 + (py - startY ts)\<^sup>2)
                   in Inr (st\<lparr>tempShape := Some (ts\<lparr>ts_radius := Some radius\<rparr>)\<rparr>))
            else Inr st)"

definition handleStageMouseUp ::
  "nat \<Rightarrow> string canvas \<Rightarrow> (error \<times> string canvas) + string canvas" where
  "handleStageMouseUp now st =
     (if \<not> isDrawing st then Inr st
      else
        case tempShape st of
          None \<Rightarrow> Inl (TypeError, st)
        | Some ts \<Rightarrow>
            let anns =
              (case rectCommit 10 ts of
                 Some (bx, by, w, h) \<Rightarrow>
                   annotations st @ [newRect (''rect-'' @ decimal now) bx by w h]
               | None \<Rightarrow>
                   (case circleCommit 10 ts of
                      Some r \<Rightarrow>
                        annotations st @
                          [newCircle (''circle-'' @ decimal now) (startX ts) (startY ts) r]
                    | None \<Rightarrow> annotations st))
            in Inr (st\<lparr>annotations := anns, isDrawing := False, tempShape := None\<rparr>))"

definition handleStageClick :: "bool \<Rightarrow> 'id canvas \<Rightarrow> 'id canvas" where
  "handleStageClick onStage st = (if onStage then st\<lparr>selectedId := None\<rparr> else st)"

section \<open>The earlier revision of the Konva canvas (exporting exportToPNG)\<close>

text \<open>
  The repository holds a second copy of the component, at an earlier revision (its handlers
  are handleMouseDown, handleMouseMove and handleMouseUp): ids are the bare Date.now()
  number, a missing pointer position returns early, the shape being drawn starts with zero
  extent, the minimum size is 5, and the export uses pixelRatio 1.
\<close>

definition handleMouseDown ::
  "bool \<Rightarrow> (real \<times> real) option \<Rightarrow> string option \<Rightarrow> nat \<Rightarrow> nat canvas \<Rightarrow> nat canvas" where
  "handleMouseDown onStage pos response now st =
     (if \<not> onStage then st
      else
        case pos of
          None \<Rightarrow> st
        | Some (px, py) \<Rightarrow>
            let st1 = st\<lparr>selectedId := None\<rparr> in
            if tool st = MarkerT then
              (let number = markerCount (annotations st) + 1;
                   label = orEmpty response
               in st1\<lparr>annotations := annotations st @ [newMarker now px py number label]\<rparr>)
            else if tool st = TextT then
              (case response of
                 None \<Rightarrow> st1
               | Some s \<Rightarrow>
                   if s = [] then st1
                   else st1\<lparr>annotations := annotations st @ [newText now px py s]\<rparr>)
            else if tool st = RectT \<or> tool st = CircleT then
              st1\<lparr>isDrawing := True,
                  tempShape := Some \<lparr> ts_type = tool st, startX = px, startY = py,
                                      ts_box = Some (px, py, 0, 0), ts_radius = Some 0 \<rparr>\<rparr>
            else st1)"

definition handleMouseMove :: "(real \<times> real) option \<Rightarrow> 'id canvas \<Rightarrow> 'id canvas" where
  "handleMouseMove pos st =
     (if \<not> isDrawing st then st
      else
        case tempShape st of
          None \<Rightarrow> st
        | Some ts \<Rightarrow>
            (case pos of
               None \<Rightarrow> st
             | Some (px, py) \<Rightarrow>
                 if ts_type ts = RectT then
                   st\<lparr>tempShape := Some (ts\<lparr>ts_box :=
                        Some (min px (startX ts), min py (startY ts),
                              \<bar>px - startX ts\<bar>, \<bar>py - startY ts\<bar>)\<rparr>)\<rparr>
                 else if ts_type ts = CircleT then
                   (let radius = sqrt ((px - startX ts)\<^sup>2 + (py - startY ts)\<^sup>2)
                    in st\<lparr>tempShape := Some (ts\<lparr>ts_radius := Some radius\<rparr>)\<rparr>)
                 else st))"

definition handleMouseUp :: "nat \<Rightarrow> nat canvas \<Rightarrow> nat canvas" where
  "handleMouseUp now st =
     (if \<not> isDrawing st then st
      else
        case tempShape st of
          None \<Rightarrow> st
        | Some ts \<Rightarrow>
            let anns =
              (case rectCommit 5 ts of
                 Some (bx, by, w, h) \<Rightarrow> annotations st @ [newRect now bx by w h]
               | None \<Rightarrow>
                   (case circleCommit 5 ts of
                      Some r \<Rightarrow> annotations st @ [newCircle now (startX ts) (startY ts) r]
                    | None \<Rightarrow> annotations st))
            in st\<lparr>annotations := anns, isDrawing := False, tempShape := None\<rparr>)"

section \<open>Export of the Konva stage\<close>

text \<open>
  The Stage element is rendered with the width and height of the dimensions cell, which
  updateSize sets to the container's offsetWidth and offsetHeight (on mount and on every
  window resize).  Konva's Stage.toDataURL rasterises the stage area (origin 0, 0 and the
  stage's own width and height when the call gives none) at pixelRatio pixels per stage
  unit; a raster is described by its pixel dimensions.
\<close>

record stage_node =
  stage_width :: nat
  stage_height :: nat

record raster =
  raster_width :: nat
  raster_height :: nat

datatype effect = Download string raster

definition updateSize :: "(nat \<times> nat) option \<Rightarrow> 'id canvas \<Rightarrow> 'id canvas" where
  "updateSize container st =
     (case container of
        None \<Rightarrow> st
      | Some (offsetWidth, offsetHeight) \<Rightarrow> st\<lparr>dimensions := (offsetWidth, offsetHeight)\<rparr>)"

definition stageOf :: "'id canvas \<Rightarrow> stage_node" where
  "stageOf st = \<lparr> stage_width = fst (dimensions st), stage_height = snd (dimensions st) \<rparr>"

definition toDataURL :: "nat \<Rightarrow> stage_node \<Rightarrow> raster" where
  "toDataURL pixelRatio s =
     \<lparr> raster_width = stage_width s * pixelRatio, raster_height = stage_height s * pixelRatio \<rparr>"

text \<open>exportCanvasToPNG of KonvaCanvas.jsx; stageRef is the value of stageRef.current.\<close>

definition exportCanvasToPNG :: "stage_node option \<Rightarrow> string \<Rightarrow> effect list" where
  "exportCanvasToPNG stageRef filename =
     (case stageRef of
        None \<Rightarrow> []
      | Some s \<Rightarrow> [Download filename (toDataURL 2 s)])"

text \<open>exportToPNG of the earlier revision.\<close>

definition exportToPNG :: "stage_node option \<Rightarrow> string \<Rightarrow> effect list" where
  "exportToPNG stageRef filename =
     (case stageRef of
        None \<Rightarrow> []
      | Some s \<Rightarrow> [Download filename (toDataURL 1 s)])"

section \<open>App.jsx (the Konva application)\<close>

text \<open>
  App keeps the image (an object holding the data URL, or null), the tool and the
  annotations.  While the image is null App returns the upload screen and no KonvaCanvas
  is mounted, so canvasRef.current is null; otherwise the ref holds the Stage of the
  mounted canvas.  The tool and the annotations are the props of that canvas.
\<close>

record app =
  app_image :: "string option"
  app_canvas :: "string canvas"

definition canvasRef :: "app \<Rightarrow> stage_node option" where
  "canvasRef a = (if app_image a = None then None else Some (stageOf (app_canvas a)))"

text \<open>
  The timestamp of a file name: the ISO string of the current date with every colon and
  period replaced by a dash, without its last five characters.
\<close>

definition timestamp :: "string \<Rightarrow> string" where
  "timestamp isoString =
     take (length isoString - 5)
       (map (\<lambda>c. if c = CHR '':'' \<or> c = CHR ''.'' then CHR ''-'' else c) isoString)"

definition App_handleExport :: "string \<Rightarrow> app \<Rightarrow> effect list" where
  "App_handleExport isoString a =
     exportCanvasToPNG (canvasRef a) (''annotated-'' @ timestamp isoString @ ''.png'')"

definition handleClearAnnotations :: "bool \<Rightarrow> 'id canvas \<Rightarrow> 'id canvas" where
  "handleClearAnnotations confirmed st = (if confirmed then st\<lparr>annotations := []\<rparr> else st)"

section \<open>AnnotationCanvas.jsx and ExportButton (the plain canvas application)\<close>

text \<open>
  The canvas element: its bitmap size (canvas.width, canvas.height) and its bounding client
  rect.  A pointer event is mapped to the bitmap by scaling with the ratio of the two.
  Where the rect has zero width or height JavaScript's division gives Infinity or NaN and
  HOL's gives 0: statements about mapped coordinates are made for a rect of positive size.
\<close>

record canvas_element =
  el_width :: nat
  el_height :: nat
  rect_left :: real
  rect_top :: real
  rect_width :: real
  rect_height :: real

record mouse_event =
  clientX :: real
  clientY :: real

definition canvasX :: "mouse_event \<Rightarrow> canvas_element \<Rightarrow> real" where
  "canvasX e c = (clientX e - rect_left c) * (real (el_width c) / rect_width c)"

definition canvasY :: "mouse_event \<Rightarrow> canvas_element \<Rightarrow> real" where
  "canvasY e c = (clientY e - rect_top c) * (real (el_height c) / rect_height c)"

text \<open>The annotations of this component have neither an id nor a style key.\<close>

record plain_canvas =
  pc_tool :: tag
  pc_annotations :: "unit annotation list"
  selectedAnnotation :: "nat option"
  isDragging :: bool
  dragStart :: "(real \<times> real) option"
  markerCounter :: nat

definition plainMarker :: "real \<Rightarrow> real \<Rightarrow> nat \<Rightarrow> string \<Rightarrow> unit annotation" where
  "plainMarker px py n l =
     \<lparr> ann_id = (), ann_type = MarkerT, ann_x = px, ann_y = py, ann_number = Some n,
       ann_label = Some l, ann_style = None, ann_text = None, ann_width = None,
       ann_height = None, ann_radius = None \<rparr>"

definition plainText :: "real \<Rightarrow> real \<Rightarrow> string \<Rightarrow> unit annotation" where
  "plainText px py s =
     \<lparr> ann_id = (), ann_type = TextT, ann_x = px, ann_y = py, ann_number = None,
       ann_label = None, ann_style = None, ann_text = Some s, ann_width = None,
       ann_height = None, ann_radius = None \<rparr>"

definition plainRect :: "real \<Rightarrow> real \<Rightarrow> real \<Rightarrow> real \<Rightarrow> unit annotation" where
  "plainRect bx by w h =
     \<lparr> ann_id = (), ann_type = RectT, ann_x = bx, ann_y = by, ann_number = None,
       ann_label = None, ann_style = None, ann_text = None, ann_width = Some w,
       ann_height = Some h, ann_radius = None \<rparr>"

definition plainCircle :: "real \<Rightarrow> real \<Rightarrow> real \<Rightarrow> unit annotation" where
  "plainCircle cx cy r =
     \<lparr> ann_id = (), ann_type = CircleT, ann_x = cx, ann_y = cy, ann_number = None,
       ann_label = None, ann_style = None, ann_text = None, ann_width = None,
       ann_height = None, ann_radius = Some r \<rparr>"

definition handleCanvasClick ::
  "mouse_event \<Rightarrow> canvas_element \<Rightarrow> string option \<Rightarrow> plain_canvas \<Rightarrow> plain_canvas" where
  "handleCanvasClick e c response st =
     (let px = canvasX e c; py = canvasY e c in
      if pc_tool st = MarkerT then
        st\<lparr>pc_annotations := pc_annotations st @
              [plainMarker px py (markerCounter st) (orEmpty response)],
           markerCounter := markerCounter st + 1\<rparr>
      else if pc_tool st = TextT then
        (case response of
           None \<Rightarrow> st
         | Some s \<Rightarrow>
             if s = [] then st
             else st\<lparr>pc_annotations := pc_annotations st @ [plainText px py s]\<rparr>)
      else st)"

definition handleCanvasMouseDown ::
  "mouse_event \<Rightarrow> canvas_element \<Rightarrow> plain_canvas \<Rightarrow> plain_canvas" where
  "handleCanvasMouseDown e c st =
     (if pc_tool st = RectT \<or> pc_tool st = CircleT then
        st\<lparr>isDragging := True, dragStart := Some (canvasX e c, canvasY e c)\<rparr>
      else st)"

definition handleCanvasMouseUp ::
  "mouse_event \<Rightarrow> canvas_element \<Rightarrow> plain_canvas \<Rightarrow> plain_canvas" where
  "handleCanvasMouseUp e c st =
     (if isDragging st \<and> (pc_tool st = RectT \<or> pc_tool st = CircleT) then
        (case dragStart st of
           None \<Rightarrow> st
         | Some (dsx, dsy) \<Rightarrow>
             let px = canvasX e c; py = canvasY e c;
                 anns =
                   (if pc_tool st = RectT then
                      (let width = px - dsx; height = py - dsy
                       in pc_annotations st @
                            [plainRect (min dsx px) (min dsy py) \<bar>width\<bar> \<bar>height\<bar>])
                    else if pc_tool st = CircleT then
                      (let radius = sqrt ((px - dsx)\<^sup>2 + (py - dsy)\<^sup>2)
                       in pc_annotations st @
                            [plainCircle (dsx - radius) (dsy - radius) radius])
                    else pc_annotations st)
             in st\<lparr>pc_annotations := anns, isDragging := False, dragStart := None\<rparr>)
      else st)"

text \<open>
  The circle each renderer draws, as (centre x, centre y, radius): drawCircle passes
  (x + radius, y + radius, radius) to ctx.arc; the Konva CircleAnnotation gives the
  annotation's x, y and radius to a Circle node, whose x and y are its centre.
\<close>

definition drawCircle :: "'id annotation \<Rightarrow> (real \<times> real \<times> real) option" where
  "drawCircle annotation =
     (case ann_radius annotation of
        None \<Rightarrow> None
      | Some r \<Rightarrow> Some (ann_x annotation + r, ann_y annotation + r, r))"

definition CircleAnnotation :: "'id annotation \<Rightarrow> (real \<times> real \<times> real) option" where
  "CircleAnnotation annotation =
     (case ann_radius annotation of
        None \<Rightarrow> None
      | Some r \<Rightarrow> Some (ann_x annotation, ann_y annotation, r))"

text \<open>
  drawCanvas sets the bitmap to the image's size when the image has loaded; handleExport
  of ExportButton encodes the canvas bitmap (canvas.toBlob) unless the ref is null.
\<close>

definition drawCanvas :: "(nat \<times> nat) \<Rightarrow> canvas_element \<Rightarrow> canvas_element" where
  "drawCanvas loaded c = c\<lparr>el_width := fst loaded, el_height := snd loaded\<rparr>"

definition handleExport :: "canvas_element option \<Rightarrow> string \<Rightarrow> effect list" where
  "handleExport canvasRefCurrent isoString =
     (case canvasRefCurrent of
        None \<Rightarrow> []
      | Some c \<Rightarrow>
          [Download (''annotated-image-'' @ timestamp isoString @ ''.png'')
             \<lparr> raster_width = el_width c, raster_height = el_height c \<rparr>])"

text \<open>
  The plain application renders ImageUploader while the image is null and the
  AnnotationCanvas (with its canvas element and ExportButton) otherwise.
\<close>

record plain_app =
  pa_image :: "string option"
  pa_element :: canvas_element

definition plainCanvasRef :: "plain_app \<Rightarrow> canvas_element option" where
  "plainCanvasRef a = (if pa_image a = None then None else Some (pa_element a))"

section \<open>Event sequences\<close>

text \<open>
  The events the Stage and its annotation nodes deliver, each with what the handler reads
  from its environment.  Konva records the pointer position before it dispatches a pointer
  event, so an event carries a position.  An annotation node is named by its index in the
  rendered list.
\<close>

datatype event =
    StageMouseDown bool "real \<times> real" "string option" nat
  | StageMouseMove "real \<times> real"
  | StageMouseUp nat
  | StageClick bool
  | AnnotationClick nat
  | AnnotationDragEnd nat real real
  | ToolSelected tag
  | ClearAnnotations bool
  | Resize "nat \<times> nat"

text \<open>The state left by a handler, whether it returned or threw.\<close>

definition settle :: "(error \<times> 'a) + 'a \<Rightarrow> 'a" where
  "settle r = (case r of Inl (e, s) \<Rightarrow> s | Inr s \<Rightarrow> s)"

definition selectAnnotation :: "nat \<Rightarrow> 'id canvas \<Rightarrow> 'id canvas" where
  "selectAnnotation i st =
     (if i < length (annotations st) then st\<lparr>selectedId := Some (ann_id (annotations st ! i))\<rparr>
      else st)"

definition dragAnnotation :: "nat \<Rightarrow> real \<Rightarrow> real \<Rightarrow> 'id canvas \<Rightarrow> 'id canvas" where
  "dragAnnotation i ex ey st =
     (if i < length (annotations st)
      then st\<lparr>annotations := onDragEnd (annotations st ! i) ex ey (annotations st)\<rparr>
      else st)"

fun step :: "string canvas \<Rightarrow> event \<Rightarrow> string canvas" where
  "step st (StageMouseDown onStage p response now) =
     settle (handleStageMouseDown onStage (Some p) response now st)"
| "step st (StageMouseMove p) = settle (handleStageMouseMove (Some p) st)"
| "step st (StageMouseUp now) = settle (handleStageMouseUp now st)"
| "step st (StageClick onStage) = handleStageClick onStage st"
| "step st (AnnotationClick i) = selectAnnotation i st"
| "step st (AnnotationDragEnd i ex ey) = dragAnnotation i ex ey st"
| "step st (ToolSelected t) = st\<lparr>tool := t\<rparr>"
| "step st (ClearAnnotations confirmed) = handleClearAnnotations confirmed st"
| "step st (Resize container) = updateSize (Some container) st"

definition run :: "string canvas \<Rightarrow> event list \<Rightarrow> string canvas" where
  "run st evs = foldl step st evs"

text \<open>The same for the earlier revision, whose Stage has no click handler.\<close>

fun stepEarlier :: "nat canvas \<Rightarrow> event \<Rightarrow> nat canvas" where
  "stepEarlier st (StageMouseDown onStage p response now) =
     handleMouseDown onStage (Some p) response now st"
| "stepEarlier st (StageMouseMove p) = handleMouseMove (Some p) st"
| "stepEarlier st (StageMouseUp now) = handleMouseUp now st"
| "stepEarlier st (StageClick onStage) = st"
| "stepEarlier st (AnnotationClick i) = selectAnnotation i st"
| "stepEarlier st (AnnotationDragEnd i ex ey) = dragAnnotation i ex ey st"
| "stepEarlier st (ToolSelected t) = st\<lparr>tool := t\<rparr>"
| "stepEarlier st (ClearAnnotations confirmed) = handleClearAnnotations confirmed st"
| "stepEarlier st (Resize container) = updateSize (Some container) st"

definition runEarlier :: "nat canvas \<Rightarrow> event list \<Rightarrow> nat canvas" where
  "runEarlier st evs = foldl stepEarlier st evs"

text \<open>
  The annotations an event sequence creates, in creation order: after each event, the
  entries of the list beyond its previous length.
\<close>

fun created :: "string canvas \<Rightarrow> event list \<Rightarrow> string annotation list" where
  "created st [] = []"
| "created st (e # es) =
     drop (length (annotations st)) (annotations (step st e)) @ created (step st e) es"

fun createdEarlier :: "nat canvas \<Rightarrow> event list \<Rightarrow> nat annotation list" where
  "createdEarlier st [] = []"
| "createdEarlier st (e # es) =
     drop (length (annotations st)) (annotations (stepEarlier st e))
       @ createdEarlier (stepEarlier st e) es"

text \<open>The canvas as it is mounted: no annotations, nothing selected, nothing being drawn.\<close>

definition mounted :: "tag \<Rightarrow> (nat \<times> nat) \<Rightarrow> (nat \<times> nat) option \<Rightarrow> 'id canvas" where
  "mounted t container loaded =
     \<lparr> tool = t, annotations = [], selectedId = None, isDrawing = False, tempShape = None,
       dimensions = container, img = loaded \<rparr>"

text \<open>The plain canvas as it is mounted: the marker counter starts at 1.\<close>

definition plainMounted :: "tag \<Rightarrow> plain_canvas" where
  "plainMounted t =
     \<lparr> pc_tool = t, pc_annotations = [], selectedAnnotation = None, isDragging = False,
       dragStart = None, markerCounter = 1 \<rparr>"

text \<open>
  A drawing gesture on the empty stage: pointer-down at start, pointer-moves through the
  given positions, pointer-up.  Its final point is the last position the pointer was
  reported at.
\<close>

definition dragEvents :: "real \<times> real \<Rightarrow> (real \<times> real) list \<Rightarrow> nat \<Rightarrow> event list" where
  "dragEvents start moves now =
     StageMouseDown True start None now # map StageMouseMove moves @ [StageMouseUp now]"

definition finalPoint :: "real \<times> real \<Rightarrow> (real \<times> real) list \<Rightarrow> real \<times> real" where
  "finalPoint start moves = last (start # moves)"

text \<open>Concrete values used in the examples below.\<close>

definition element800 :: canvas_element where
  "element800 =
     \<lparr> el_width = 800, el_height = 600, rect_left = 0, rect_top = 0,
       rect_width = 800, rect_height = 600 \<rparr>"

definition twoAnnotations :: "string canvas" where
  "twoAnnotations =
     \<lparr> tool = SelectT,
       annotations = [newRect ''rect-1'' 10 10 90 70, newMarker ''marker-2'' 200 50 1 ''Submit''],
       selectedId = None, isDrawing = False, tempShape = None,
       dimensions = (1024, 768), img = Some (800, 600) \<rparr>"

text \<open>
  A canvas element shown at half its bitmap size and offset in the viewport; and the two
  applications holding a file that is no image (the file input's change handler takes any
  file), so that the canvas is mounted while no bitmap has been decoded.
\<close>

definition elementScaled :: canvas_element where
  "elementScaled =
     \<lparr> el_width = 800, el_height = 600, rect_left = 20, rect_top = 30,
       rect_width = 400, rect_height = 300 \<rparr>"

definition undecodedApp :: app where
  "undecodedApp =
     \<lparr> app_image = Some ''data:text/plain;base64,AAAA'',
       app_canvas =
         run (mounted MarkerT (1024, 768) None)
           [StageMouseDown True (100, 100) (Some ''Submit'') 5] \<rparr>"

definition undecodedPlainApp :: plain_app where
  "undecodedPlainApp =
     \<lparr> pa_image = Some ''data:text/plain;base64,AAAA'',
       pa_element =
         \<lparr> el_width = 300, el_height = 150, rect_left = 0, rect_top = 0,
           rect_width = 300, rect_height = 150 \<rparr> \<rparr>"

section \<open>Properties of event sequences\<close>

text \<open>
  The events that create annotations or leave the list alone: everything but a drag-end
  (which rewrites entries) and the clear action (which deletes them).
\<close>

fun creationEvent :: "event \<Rightarrow> bool" where
  "creationEvent (AnnotationDragEnd i ex ey) = False"
| "creationEvent (ClearAnnotations confirmed) = False"
| "creationEvent e = True"

text \<open>
  Markers numbered in order: the markers of a list, in list order, carry the numbers
  1, 2, 3 and so on.  A list grows when it is unchanged or gains one entry at its end, a
  marker among them carrying the marker count of the old list plus one.
\<close>

definition numbered :: "'id annotation list \<Rightarrow> bool" where
  "numbered anns \<longleftrightarrow>
     map ann_number (filter (\<lambda>a. ann_type a = MarkerT) anns)
       = map Some [1..<Suc (markerCount anns)]"

definition grows :: "'id annotation list \<Rightarrow> 'id annotation list \<Rightarrow> bool" where
  "grows before after \<longleftrightarrow>
     after = before \<or>
     (\<exists>a. after = before @ [a] \<and>
          (if ann_type a = MarkerT then ann_number a = Some (markerCount before + 1) else True))"

text \<open>
  The clock readings (Date.now()) an event sequence carries, in order: one for every
  pointer-down and every pointer-up on the stage.
\<close>

fun eventTime :: "event \<Rightarrow> nat list" where
  "eventTime (StageMouseDown onStage p response now) = [now]"
| "eventTime (StageMouseUp now) = [now]"
| "eventTime e = []"

definition clock :: "event list \<Rightarrow> nat list" where
  "clock evs = concat (map eventTime evs)"

text \<open>
  The ids of KonvaCanvas.jsx are one of four prefixes followed by the clock reading in
  decimal.  An id is stamped below b (from b) when its reading is less than b (at least b).
  One event appends a stamped entry when the new list is the old one with one entry at its
  end whose id carries that reading.
\<close>

definition prefixes :: "string set" where
  "prefixes = {''marker-'', ''text-'', ''rect-'', ''circle-''}"

definition stampedBelow :: "nat \<Rightarrow> string \<Rightarrow> bool" where
  "stampedBelow b i \<longleftrightarrow> (\<exists>p\<in>prefixes. \<exists>t<b. i = p @ decimal t)"

definition stampedFrom :: "nat \<Rightarrow> string \<Rightarrow> bool" where
  "stampedFrom b i \<longleftrightarrow> (\<exists>p\<in>prefixes. \<exists>t\<ge>b. i = p @ decimal t)"

definition appendsStamped :: "nat \<Rightarrow> string annotation list \<Rightarrow> string annotation list \<Rightarrow> bool" where
  "appendsStamped t before after \<longleftrightarrow>
     (\<exists>a. \<exists>p\<in>prefixes. after = before @ [a] \<and> ann_id a = p @ decimal t)"

definition appendsId :: "nat \<Rightarrow> nat annotation list \<Rightarrow> nat annotation list \<Rightarrow> bool" where
  "appendsId t before after \<longleftrightarrow> (\<exists>a. after = before @ [a] \<and> ann_id a = t)"

text \<open>Example sequences.\<close>

definition mixedCreation :: "event list" where
  "mixedCreation =
     [StageMouseDown True (100, 100) (Some ''Submit'') 5,
      ToolSelected RectT,
      StageMouseDown True (10, 10) None 6, StageMouseMove (100, 80), StageMouseUp 7,
      ToolSelected MarkerT,
      StageMouseDown True (200, 50) (Some []) 9]"

definition createClearCreate :: "event list" where
  "createClearCreate =
     [StageMouseDown True (100, 100) (Some ''Submit'') 5,
      ToolSelected RectT,
      StageMouseDown True (10, 10) None 6, StageMouseMove (100, 80), StageMouseUp 7,
      AnnotationDragEnd 0 120 130,
      ClearAnnotations True,
      ToolSelected MarkerT,
      StageMouseDown True (200, 50) (Some []) 9]"

section \<open>Evaluation of concrete values\<close>

lemma decimal_5: "decimal 5 = ''5''"
  by (simp add: decimal.simps digit_def)

lemma sqrt_2500: "sqrt 2500 = 50"
  by (rule real_sqrt_unique) simp_all

lemma decimal_7: "decimal 7 = ''7''"
  by (simp add: decimal.simps digit_def)

lemma sqrt_30_40: "sqrt (30\<^sup>2 + 40\<^sup>2) = 50"
  by (rule real_sqrt_unique) simp_all

lemma decimal_9: "decimal 9 = ''9''"
  by (simp add: decimal.simps digit_def)

lemma canvas_point_800 [simp]:
  "canvasX \<lparr>clientX = px, clientY = py\<rparr> element800 = px"
  "canvasY \<lparr>clientX = px, clientY = py\<rparr> element800 = py"
  by (simp_all add: canvasX_def canvasY_def element800_def)

section \<open>Running event sequences\<close>

lemma run_Nil [simp]: "run st [] = st"
  by (simp add: run_def)

lemma run_Cons [simp]: "run st (e # es) = run (step st e) es"
  by (simp add: run_def)

lemma run_append [simp]: "run st (es @ fs) = run (run st es) fs"
  by (simp add: run_def)

lemma runEarlier_Nil [simp]: "runEarlier st [] = st"
  by (simp add: runEarlier_def)

lemma runEarlier_Cons [simp]: "runEarlier st (e # es) = runEarlier (stepEarlier st e) es"
  by (simp add: runEarlier_def)

lemma runEarlier_append [simp]: "runEarlier st (es @ fs) = runEarlier (runEarlier st es) fs"
  by (simp add: runEarlier_def)

subsection \<open>Drawing gestures\<close>

text \<open>Pointer moves while a shape is being drawn: the preview follows the last position.\<close>

lemma moves_rect_konva:
  assumes "isDrawing s" and "tempShape s = Some ts" and "ts_type ts = RectT"
  shows "run s (map StageMouseMove ms) =
           s\<lparr>tempShape := Some (ts\<lparr>ts_box :=
               (if ms = [] then ts_box ts
                else Some (min (fst (last ms)) (startX ts), min (snd (last ms)) (startY ts),
                           \<bar>fst (last ms) - startX ts\<bar>, \<bar>snd (last ms) - startY ts\<bar>))\<rparr>)\<rparr>"
proof (induction ms rule: rev_induct)
  case Nil
  show ?case using assms by simp
next
  case (snoc m ms)
  obtain px py where m: "m = (px, py)" by (cases m)
  show ?case
    using assms snoc
    by (simp add: m handleStageMouseMove_def settle_def)
qed

lemma moves_circle_konva:
  assumes "isDrawing s" and "tempShape s = Some ts" and "ts_type ts = CircleT"
  shows "run s (map StageMouseMove ms) =
           s\<lparr>tempShape := Some (ts\<lparr>ts_radius :=
               (if ms = [] then ts_radius ts
                else Some (sqrt ((fst (last ms) - startX ts)\<^sup>2
                                 + (snd (last ms) - startY ts)\<^sup>2)))\<rparr>)\<rparr>"
proof (induction ms rule: rev_induct)
  case Nil
  show ?case using assms by simp
next
  case (snoc m ms)
  obtain px py where m: "m = (px, py)" by (cases m)
  show ?case
    using assms snoc
    by (simp add: m handleStageMouseMove_def settle_def Let_def)
qed

lemma drag_rect_konva:
  assumes "tool st = RectT"
  shows "run st (dragEvents (sx, sy) ms now) =
           st\<lparr>selectedId := None,
              annotations :=
                (if 10 < \<bar>fst (finalPoint (sx, sy) ms) - sx\<bar> \<and>
                    10 < \<bar>snd (finalPoint (sx, sy) ms) - sy\<bar>
                 then annotations st @
                        [newRect (''rect-'' @ decimal now)
                           (min (fst (finalPoint (sx, sy) ms)) sx)
                           (min (snd (finalPoint (sx, sy) ms)) sy)
                           \<bar>fst (finalPoint (sx, sy) ms) - sx\<bar>
                           \<bar>snd (finalPoint (sx, sy) ms) - sy\<bar>]
                 else annotations st),
              isDrawing := False, tempShape := None\<rparr>"
proof -
  let ?ts = "\<lparr> ts_type = RectT, startX = sx, startY = sy, ts_box = None, ts_radius = None \<rparr>"
  let ?s1 = "st\<lparr>selectedId := None, isDrawing := True, tempShape := Some ?ts\<rparr>"
  let ?thesis_rhs = "st\<lparr>selectedId := None,
              annotations :=
                (if 10 < \<bar>fst (finalPoint (sx, sy) ms) - sx\<bar> \<and>
                    10 < \<bar>snd (finalPoint (sx, sy) ms) - sy\<bar>
                 then annotations st @
                        [newRect (''rect-'' @ decimal now)
                           (min (fst (finalPoint (sx, sy) ms)) sx)
                           (min (snd (finalPoint (sx, sy) ms)) sy)
                           \<bar>fst (finalPoint (sx, sy) ms) - sx\<bar>
                           \<bar>snd (finalPoint (sx, sy) ms) - sy\<bar>]
                 else annotations st),
              isDrawing := False, tempShape := None\<rparr>"
  have down: "step st (StageMouseDown True (sx, sy) None now) = ?s1"
    using assms by (simp add: handleStageMouseDown_def settle_def)
  have moves: "run ?s1 (map StageMouseMove ms) =
      ?s1\<lparr>tempShape := Some (?ts\<lparr>ts_box :=
               (if ms = [] then ts_box ?ts
                else Some (min (fst (last ms)) (startX ?ts), min (snd (last ms)) (startY ?ts),
                           \<bar>fst (last ms) - startX ?ts\<bar>, \<bar>snd (last ms) - startY ?ts\<bar>))\<rparr>)\<rparr>"
    by (rule moves_rect_konva) simp_all
  have "run st (dragEvents (sx, sy) ms now) =
          step (run (step st (StageMouseDown True (sx, sy) None now)) (map StageMouseMove ms))
            (StageMouseUp now)"
    by (simp add: dragEvents_def del: step.simps)
  also have "\<dots> = ?thesis_rhs"
    unfolding down moves
    by (simp add: finalPoint_def handleStageMouseUp_def settle_def rectCommit_def
          circleCommit_def)
  finally show ?thesis .
qed


lemma drag_circle_konva:
  assumes "tool st = CircleT"
  shows "run st (dragEvents (sx, sy) ms now) =
           st\<lparr>selectedId := None,
              annotations :=
                (if 10 < sqrt ((fst (finalPoint (sx, sy) ms) - sx)\<^sup>2
                               + (snd (finalPoint (sx, sy) ms) - sy)\<^sup>2)
                 then annotations st @
                        [newCircle (''circle-'' @ decimal now) sx sy
                           (sqrt ((fst (finalPoint (sx, sy) ms) - sx)\<^sup>2
                                  + (snd (finalPoint (sx, sy) ms) - sy)\<^sup>2))]
                 else annotations st),
              isDrawing := False, tempShape := None\<rparr>"
    (is "_ = ?rhs")
proof -
  let ?ts = "\<lparr> ts_type = CircleT, startX = sx, startY = sy, ts_box = None, ts_radius = None \<rparr>"
  let ?s1 = "st\<lparr>selectedId := None, isDrawing := True, tempShape := Some ?ts\<rparr>"
  have down: "step st (StageMouseDown True (sx, sy) None now) = ?s1"
    using assms by (simp add: handleStageMouseDown_def settle_def)
  have moves: "run ?s1 (map StageMouseMove ms) =
      ?s1\<lparr>tempShape := Some (?ts\<lparr>ts_radius :=
               (if ms = [] then ts_radius ?ts
                else Some (sqrt ((fst (last ms) - startX ?ts)\<^sup>2
                                 + (snd (last ms) - startY ?ts)\<^sup>2)))\<rparr>)\<rparr>"
    by (rule moves_circle_konva) simp_all
  have "run st (dragEvents (sx, sy) ms now) =
          step (run (step st (StageMouseDown True (sx, sy) None now)) (map StageMouseMove ms))
            (StageMouseUp now)"
    by (simp add: dragEvents_def del: step.simps)
  also have "\<dots> = ?rhs"
    unfolding down moves
    by (simp add: finalPoint_def handleStageMouseUp_def settle_def rectCommit_def
          circleCommit_def)
  finally show ?thesis .
qed

lemma moves_rect_earlier:
  assumes "isDrawing s" and "tempShape s = Some ts" and "ts_type ts = RectT"
  shows "runEarlier s (map StageMouseMove ms) =
           s\<lparr>tempShape := Some (ts\<lparr>ts_box :=
               (if ms = [] then ts_box ts
                else Some (min (fst (last ms)) (startX ts), min (snd (last ms)) (startY ts),
                           \<bar>fst (last ms) - startX ts\<bar>, \<bar>snd (last ms) - startY ts\<bar>))\<rparr>)\<rparr>"
proof (induction ms rule: rev_induct)
  case Nil
  show ?case using assms by simp
next
  case (snoc m ms)
  obtain px py where m: "m = (px, py)" by (cases m)
  show ?case
    using assms snoc
    by (simp add: m handleMouseMove_def)
qed


lemma drag_rect_earlier:
  assumes "tool st = RectT"
  shows "runEarlier st (dragEvents (sx, sy) ms now) =
           st\<lparr>selectedId := None,
              annotations :=
                (if 5 < \<bar>fst (finalPoint (sx, sy) ms) - sx\<bar> \<and>
                    5 < \<bar>snd (finalPoint (sx, sy) ms) - sy\<bar>
                 then annotations st @
                        [newRect now
                           (min (fst (finalPoint (sx, sy) ms)) sx)
                           (min (snd (finalPoint (sx, sy) ms)) sy)
                           \<bar>fst (finalPoint (sx, sy) ms) - sx\<bar>
                           \<bar>snd (finalPoint (sx, sy) ms) - sy\<bar>]
                 else annotations st),
              isDrawing := False, tempShape := None\<rparr>"
    (is "_ = ?rhs")
proof -
  let ?ts = "\<lparr> ts_type = RectT, startX = sx, startY = sy, ts_box = Some (sx, sy, 0, 0),
              ts_radius = Some 0 \<rparr>"
  let ?s1 = "st\<lparr>selectedId := None, isDrawing := True, tempShape := Some ?ts\<rparr>"
  have down: "stepEarlier st (StageMouseDown True (sx, sy) None now) = ?s1"
    using assms by (simp add: handleMouseDown_def)
  have moves: "runEarlier ?s1 (map StageMouseMove ms) =
      ?s1\<lparr>tempShape := Some (?ts\<lparr>ts_box :=
               (if ms = [] then ts_box ?ts
                else Some (min (fst (last ms)) (startX ?ts), min (snd (last ms)) (startY ?ts),
                           \<bar>fst (last ms) - startX ?ts\<bar>, \<bar>snd (last ms) - startY ?ts\<bar>))\<rparr>)\<rparr>"
    by (rule moves_rect_earlier) simp_all
  have "runEarlier st (dragEvents (sx, sy) ms now) =
          stepEarlier
            (runEarlier (stepEarlier st (StageMouseDown True (sx, sy) None now))
               (map StageMouseMove ms))
            (StageMouseUp now)"
    by (simp add: dragEvents_def del: stepEarlier.simps)
  also have "\<dots> = ?rhs"
    unfolding down moves
    by (simp add: finalPoint_def handleMouseUp_def rectCommit_def circleCommit_def)
  finally show ?thesis .
qed


section \<open>Marker and text creation\<close>

lemma marker_down_konva:
  "tool st = MarkerT \<Longrightarrow>
   handleStageMouseDown True (Some (px, py)) response now st =
     Inr (st\<lparr>selectedId := None,
              annotations := annotations st @
                [newMarker (''marker-'' @ decimal now) px py
                   (markerCount (annotations st) + 1) (orEmpty response)]\<rparr>)"
  by (simp add: handleStageMouseDown_def Let_def)

lemma marker_down_earlier:
  "tool st = MarkerT \<Longrightarrow>
   handleMouseDown True (Some (px, py)) response now st =
     st\<lparr>selectedId := None,
         annotations := annotations st @
           [newMarker now px py (markerCount (annotations st) + 1) (orEmpty response)]\<rparr>"
  by (simp add: handleMouseDown_def Let_def)

lemma marker_click_plain:
  "pc_tool st = MarkerT \<Longrightarrow>
   handleCanvasClick e c response st =
     st\<lparr>pc_annotations := pc_annotations st @
           [plainMarker (canvasX e c) (canvasY e c) (markerCounter st) (orEmpty response)],
        markerCounter := markerCounter st + 1\<rparr>"
  by (simp add: handleCanvasClick_def Let_def)

text \<open>
  C10.  In the marker tool, a cancelled label prompt (null) still appends a marker, with the
  empty string as its label, exactly as an empty answer does: in KonvaCanvas.jsx, in its
  earlier revision and in AnnotationCanvas.jsx.
\<close>

theorem marker_cancel_creates_unlabelled_marker:
  assumes "tool st = MarkerT" and "tool st' = MarkerT" and "pc_tool st'' = MarkerT"
  shows
   "handleStageMouseDown True (Some (px, py)) None now st =
      Inr (st\<lparr>selectedId := None,
               annotations := annotations st @
                 [\<lparr> ann_id = ''marker-'' @ decimal now, ann_type = MarkerT,
                    ann_x = px, ann_y = py,
                    ann_number =
                      Some (length (filter (\<lambda>a. ann_type a = MarkerT) (annotations st)) + 1),
                    ann_label = Some [], ann_style = Some Primary, ann_text = None,
                    ann_width = None, ann_height = None, ann_radius = None \<rparr>]\<rparr>) \<and>
    handleStageMouseDown True (Some (px, py)) None now st =
      handleStageMouseDown True (Some (px, py)) (Some []) now st \<and>
    handleMouseDown True (Some (px, py)) None now st' =
      st'\<lparr>selectedId := None,
          annotations := annotations st' @
            [\<lparr> ann_id = now, ann_type = MarkerT, ann_x = px, ann_y = py,
               ann_number =
                 Some (length (filter (\<lambda>a. ann_type a = MarkerT) (annotations st')) + 1),
               ann_label = Some [], ann_style = Some Primary, ann_text = None,
               ann_width = None, ann_height = None, ann_radius = None \<rparr>]\<rparr> \<and>
    handleMouseDown True (Some (px, py)) None now st' =
      handleMouseDown True (Some (px, py)) (Some []) now st' \<and>
    handleCanvasClick e c None st'' =
      st''\<lparr>pc_annotations := pc_annotations st'' @
             [\<lparr> ann_id = (), ann_type = MarkerT,
                ann_x = (clientX e - rect_left c) * (real (el_width c) / rect_width c),
                ann_y = (clientY e - rect_top c) * (real (el_height c) / rect_height c),
                ann_number = Some (markerCounter st''),
                ann_label = Some [], ann_style = None, ann_text = None,
                ann_width = None, ann_height = None, ann_radius = None \<rparr>],
           markerCounter := markerCounter st'' + 1\<rparr> \<and>
    handleCanvasClick e c None st'' = handleCanvasClick e c (Some []) st'' \<and>
    ann_label (last (annotations (settle (handleStageMouseDown True (Some (px, py)) None now st))))
      = Some [] \<and>
    ann_type (last (annotations (settle (handleStageMouseDown True (Some (px, py)) None now st))))
      = MarkerT \<and>
    ann_label (last (annotations (handleMouseDown True (Some (px, py)) None now st'))) = Some [] \<and>
    ann_type (last (annotations (handleMouseDown True (Some (px, py)) None now st'))) = MarkerT \<and>
    ann_label (last (pc_annotations (handleCanvasClick e c None st''))) = Some [] \<and>
    ann_type (last (pc_annotations (handleCanvasClick e c None st''))) = MarkerT"
  using assms
  by (simp add: marker_down_konva marker_down_earlier marker_click_plain orEmpty_def
        newMarker_def plainMarker_def markerCount_def canvasX_def canvasY_def settle_def)

theorem marker_cancel_creates_unlabelled_marker_witness:
  "annotations (settle (handleStageMouseDown True (Some (100, 120)) None 5
       (mounted MarkerT (800, 600) (Some (800, 600)))))
     = [\<lparr> ann_id = ''marker-5'', ann_type = MarkerT, ann_x = 100, ann_y = 120,
          ann_number = Some 1, ann_label = Some [], ann_style = Some Primary,
          ann_text = None, ann_width = None, ann_height = None, ann_radius = None \<rparr>] \<and>
   annotations (handleMouseDown True (Some (100, 120)) None 5
       (mounted MarkerT (1000, 800) (Some (800, 600))))
     = [\<lparr> ann_id = 5, ann_type = MarkerT, ann_x = 100, ann_y = 120,
          ann_number = Some 1, ann_label = Some [], ann_style = Some Primary,
          ann_text = None, ann_width = None, ann_height = None, ann_radius = None \<rparr>] \<and>
   pc_annotations (handleCanvasClick \<lparr>clientX = 70, clientY = 90\<rparr> elementScaled None
       (plainMounted MarkerT))
     = [\<lparr> ann_id = (), ann_type = MarkerT, ann_x = 100, ann_y = 120,
          ann_number = Some 1, ann_label = Some [], ann_style = None,
          ann_text = None, ann_width = None, ann_height = None, ann_radius = None \<rparr>]"
proof -
  let ?st = "mounted MarkerT (800, 600) (Some (800, 600)) :: string canvas"
  let ?st' = "mounted MarkerT (1000, 800) (Some (800, 600)) :: nat canvas"
  have h1: "tool ?st = MarkerT" and h2: "tool ?st' = MarkerT"
    and h3: "pc_tool (plainMounted MarkerT) = MarkerT"
    by (simp_all add: mounted_def plainMounted_def)
  note t = marker_cancel_creates_unlabelled_marker
    [OF h1 h2 h3, where px = 100 and py = 120 and now = 5
       and e = "\<lparr>clientX = 70, clientY = 90\<rparr>" and c = elementScaled]
  show ?thesis
    using t
    by (simp add: mounted_def plainMounted_def settle_def decimal_5 elementScaled_def)
qed

text \<open>
  C8.  In the text tool, a pointer-down on the empty stage (KonvaCanvas.jsx) or a click on
  the canvas (AnnotationCanvas.jsx) appends a text annotation at the mapped coordinates
  exactly when the prompt returns a non-empty string; on an empty or cancelled answer the
  annotation list is unchanged and the handler returns normally (in KonvaCanvas.jsx
  whether or not the stage reports a pointer position).
\<close>

theorem text_created_iff_answer_nonempty:
  fixes st :: "string canvas" and pst :: plain_canvas
  assumes "tool st = TextT" and "pc_tool pst = TextT"
  shows
   "handleStageMouseDown True (Some (px, py)) response now st =
      Inr (case response of
             None \<Rightarrow> st\<lparr>selectedId := None\<rparr>
           | Some s \<Rightarrow>
               if s = [] then st\<lparr>selectedId := None\<rparr>
               else st\<lparr>selectedId := None,
                       annotations := annotations st @
                         [\<lparr> ann_id = ''text-'' @ decimal now, ann_type = TextT,
                            ann_x = px, ann_y = py, ann_number = None, ann_label = None,
                            ann_style = None, ann_text = Some s, ann_width = None,
                            ann_height = None, ann_radius = None \<rparr>]\<rparr>) \<and>
    (annotations (settle (handleStageMouseDown True (Some (px, py)) response now st))
       = annotations st \<longleftrightarrow> response = None \<or> response = Some []) \<and>
    (response = None \<or> response = Some [] \<longrightarrow>
       handleStageMouseDown True pointerPosition response now st
         = Inr (st\<lparr>selectedId := None\<rparr>)) \<and>
    handleCanvasClick e c response pst =
      (case response of
         None \<Rightarrow> pst
       | Some s \<Rightarrow>
           if s = [] then pst
           else pst\<lparr>pc_annotations := pc_annotations pst @
                        [\<lparr> ann_id = (), ann_type = TextT,
                           ann_x = (clientX e - rect_left c) * (real (el_width c) / rect_width c),
                           ann_y = (clientY e - rect_top c) * (real (el_height c) / rect_height c),
                           ann_number = None, ann_label = None, ann_style = None,
                           ann_text = Some s, ann_width = None, ann_height = None,
                           ann_radius = None \<rparr>]\<rparr>) \<and>
    (pc_annotations (handleCanvasClick e c response pst) = pc_annotations pst
       \<longleftrightarrow> response = None \<or> response = Some []) \<and>
    (\<forall>s. response = Some s \<and> s \<noteq> [] \<longrightarrow>
       (let a = last (annotations
                  (settle (handleStageMouseDown True (Some (px, py)) response now st)));
            b = last (pc_annotations (handleCanvasClick e c response pst))
        in ann_type a = TextT \<and> ann_x a = px \<and> ann_y a = py \<and> ann_text a = Some s \<and>
           ann_type b = TextT \<and>
           ann_x b = (clientX e - rect_left c) * (real (el_width c) / rect_width c) \<and>
           ann_y b = (clientY e - rect_top c) * (real (el_height c) / rect_height c) \<and>
           ann_text b = Some s))"
  using assms
  by (auto simp add: handleStageMouseDown_def handleCanvasClick_def settle_def Let_def
        newText_def plainText_def canvasX_def canvasY_def
        split: option.splits)

theorem text_created_iff_answer_nonempty_witness:
  "annotations (settle (handleStageMouseDown True (Some (40, 60)) (Some ''Note'') 7
       (mounted TextT (800, 600) (Some (800, 600)))))
     = [\<lparr> ann_id = ''text-7'', ann_type = TextT, ann_x = 40, ann_y = 60, ann_number = None,
          ann_label = None, ann_style = None, ann_text = Some ''Note'', ann_width = None,
          ann_height = None, ann_radius = None \<rparr>] \<and>
   annotations (settle (handleStageMouseDown True (Some (40, 60)) (Some []) 7
       (mounted TextT (800, 600) (Some (800, 600))))) = [] \<and>
   annotations (settle (handleStageMouseDown True (Some (40, 60)) None 7
       (mounted TextT (800, 600) (Some (800, 600))))) = [] \<and>
   pc_annotations (handleCanvasClick \<lparr>clientX = 70, clientY = 90\<rparr> elementScaled
       (Some ''Note'') (plainMounted TextT))
     = [\<lparr> ann_id = (), ann_type = TextT, ann_x = 100, ann_y = 120, ann_number = None,
          ann_label = None, ann_style = None, ann_text = Some ''Note'', ann_width = None,
          ann_height = None, ann_radius = None \<rparr>] \<and>
   pc_annotations (handleCanvasClick \<lparr>clientX = 70, clientY = 90\<rparr> elementScaled None
       (plainMounted TextT)) = []"
proof -
  let ?st = "mounted TextT (800, 600) (Some (800, 600)) :: string canvas"
  let ?e = "\<lparr>clientX = 70, clientY = 90\<rparr>"
  have h1: "tool ?st = TextT" and h2: "pc_tool (plainMounted TextT) = TextT"
    by (simp_all add: mounted_def plainMounted_def)
  note t = text_created_iff_answer_nonempty [OF h1 h2]
  show ?thesis
    using t [where px = 40 and py = 60 and response = "Some ''Note''" and now = 7
               and e = ?e and c = elementScaled and pointerPosition = None, THEN conjunct1]
      t [where px = 40 and py = 60 and response = "Some ''Note''" and now = 7
               and e = ?e and c = elementScaled and pointerPosition = None,
         THEN conjunct2, THEN conjunct2, THEN conjunct2, THEN conjunct1]
      t [where px = 40 and py = 60 and response = "Some []" and now = 7
               and e = ?e and c = elementScaled and pointerPosition = None, THEN conjunct1]
      t [where px = 40 and py = 60 and response = "Some []" and now = 7
               and e = ?e and c = elementScaled and pointerPosition = None,
         THEN conjunct2, THEN conjunct2, THEN conjunct2, THEN conjunct1]
      t [where px = 40 and py = 60 and response = None and now = 7
               and e = ?e and c = elementScaled and pointerPosition = None, THEN conjunct1]
      t [where px = 40 and py = 60 and response = None and now = 7
               and e = ?e and c = elementScaled and pointerPosition = None,
         THEN conjunct2, THEN conjunct2, THEN conjunct2, THEN conjunct1]
    by (simp add: mounted_def plainMounted_def settle_def decimal_7 elementScaled_def)
qed

section \<open>Drawing rectangles and circles\<close>



text \<open>
  C6.  A rect gesture from (sx, sy) whose final point (cx, cy) passes the minimum-size test
  commits a rect with x = min sx cx, y = min sy cy, width = |cx - sx| and
  height = |cy - sy|, both non-negative; the gesture from (10, 10) to (100, 80) commits
  x 10, y 10, width 90, height 70, and so does the reverse gesture.
\<close>

theorem rect_drag_commits_bounding_box:
  assumes "tool st = RectT" and "10 < \<bar>cx - sx\<bar>" and "10 < \<bar>cy - sy\<bar>"
  shows
   "annotations (run st (dragEvents (sx, sy) (ms @ [(cx, cy)]) now)) =
      annotations st @
        [newRect (''rect-'' @ decimal now) (min sx cx) (min sy cy) \<bar>cx - sx\<bar> \<bar>cy - sy\<bar>] \<and>
    ann_width (last (annotations (run st (dragEvents (sx, sy) (ms @ [(cx, cy)]) now))))
      = Some \<bar>cx - sx\<bar> \<and>
    ann_height (last (annotations (run st (dragEvents (sx, sy) (ms @ [(cx, cy)]) now))))
      = Some \<bar>cy - sy\<bar> \<and>
    0 \<le> \<bar>cx - sx\<bar> \<and> 0 \<le> \<bar>cy - sy\<bar>"
  using assms
  by (simp add: drag_rect_konva finalPoint_def newRect_def min.commute)

theorem rect_drag_commits_bounding_box_witness:
  "annotations (run (mounted RectT (800, 600) (Some (800, 600)))
       (dragEvents (10, 10) [(100, 80)] 7))
     = [\<lparr> ann_id = ''rect-7'', ann_type = RectT, ann_x = 10, ann_y = 10, ann_number = None,
          ann_label = None, ann_style = Some Warning, ann_text = None, ann_width = Some 90,
          ann_height = Some 70, ann_radius = None \<rparr>] \<and>
   annotations (run (mounted RectT (800, 600) (Some (800, 600)))
       (dragEvents (100, 80) [(60, 90), (10, 10)] 7))
     = [\<lparr> ann_id = ''rect-7'', ann_type = RectT, ann_x = 10, ann_y = 10, ann_number = None,
          ann_label = None, ann_style = Some Warning, ann_text = None, ann_width = Some 90,
          ann_height = Some 70, ann_radius = None \<rparr>]"
  using
    rect_drag_commits_bounding_box
      [of "mounted RectT (800, 600) (Some (800, 600))" 100 10 80 10 "[]" 7]
    rect_drag_commits_bounding_box
      [of "mounted RectT (800, 600) (Some (800, 600))" 10 100 10 80 "[(60, 90)]" 7]
  by (simp add: mounted_def newRect_def decimal_7)

lemma plain_down_circle:
  "handleCanvasMouseDown \<lparr>clientX = 100, clientY = 100\<rparr> element800 (plainMounted CircleT)
     = (plainMounted CircleT)\<lparr>isDragging := True, dragStart := Some (100, 100)\<rparr>"
  by (simp add: handleCanvasMouseDown_def plainMounted_def)

text \<open>
  C5 (as amended).  A circle committed by the Konva canvas stores the start point of its
  gesture as x and y, and CircleAnnotation draws it centred there.  A circle committed by
  AnnotationCanvas.jsx stores the start point minus the radius (the corner of the bounding
  box), and drawCircle draws it centred at (x + radius, y + radius), the start point.
\<close>

theorem circle_position_per_component:
  fixes st :: "string canvas" and pst :: plain_canvas
  assumes "tool st = CircleT"
    and "r = sqrt ((fst (finalPoint (sx, sy) ms) - sx)\<^sup>2 + (snd (finalPoint (sx, sy) ms) - sy)\<^sup>2)"
    and "10 < r"
    and "pc_tool pst = CircleT" and "isDragging pst" and "dragStart pst = Some (dsx, dsy)"
    and "r' = sqrt ((canvasX e c - dsx)\<^sup>2 + (canvasY e c - dsy)\<^sup>2)"
  shows
   "annotations (run st (dragEvents (sx, sy) ms now)) =
      annotations st @ [newCircle (''circle-'' @ decimal now) sx sy r] \<and>
    ann_x (newCircle (''circle-'' @ decimal now) sx sy r) = sx \<and>
    ann_y (newCircle (''circle-'' @ decimal now) sx sy r) = sy \<and>
    CircleAnnotation (newCircle (''circle-'' @ decimal now) sx sy r) = Some (sx, sy, r) \<and>
    pc_annotations (handleCanvasMouseUp e c pst) =
      pc_annotations pst @ [plainCircle (dsx - r') (dsy - r') r'] \<and>
    ann_x (plainCircle (dsx - r') (dsy - r') r') = dsx - r' \<and>
    ann_y (plainCircle (dsx - r') (dsy - r') r') = dsy - r' \<and>
    drawCircle (plainCircle (dsx - r') (dsy - r') r') = Some (dsx, dsy, r')"
  using assms
  by (simp add: drag_circle_konva handleCanvasMouseUp_def Let_def newCircle_def plainCircle_def
        CircleAnnotation_def drawCircle_def)

theorem circle_position_per_component_witness:
  "annotations (run (mounted CircleT (800, 600) (Some (800, 600)))
       (dragEvents (100, 100) [(130, 140)] 7)) = [newCircle ''circle-7'' 100 100 50] \<and>
   pc_annotations (handleCanvasMouseUp \<lparr>clientX = 130, clientY = 140\<rparr> element800
       (handleCanvasMouseDown \<lparr>clientX = 100, clientY = 100\<rparr> element800
          (plainMounted CircleT)))
     = [plainCircle 50 50 50] \<and>
   drawCircle (plainCircle 50 50 50) = Some (100, 100, 50)"
proof -
  let ?st = "mounted CircleT (800, 600) (Some (800, 600)) :: string canvas"
  let ?pst = "(plainMounted CircleT)\<lparr>isDragging := True, dragStart := Some (100, 100)\<rparr>"
  let ?e = "\<lparr>clientX = 130, clientY = 140\<rparr>"
  have h1: "tool ?st = CircleT"
    by (simp add: mounted_def)
  have h2: "(50::real) = sqrt ((fst (finalPoint (100, 100) [(130, 140)]) - 100)\<^sup>2
                              + (snd (finalPoint (100, 100) [(130, 140)]) - 100)\<^sup>2)"
    using sqrt_30_40 by (simp add: finalPoint_def)
  have h3: "(10::real) < 50"
    by simp
  have h4: "pc_tool ?pst = CircleT" and h5: "isDragging ?pst"
    and h6: "dragStart ?pst = Some (100, 100)"
    by (simp_all add: plainMounted_def)
  have h7: "(50::real) = sqrt ((canvasX ?e element800 - 100)\<^sup>2 + (canvasY ?e element800 - 100)\<^sup>2)"
    using sqrt_30_40 by simp
  note t = circle_position_per_component [OF h1 h2 h3 h4 h5 h6 h7, of 7]
  have a0: "annotations ?st = []"
    by (simp add: mounted_def)
  have p0: "pc_annotations ?pst = []"
    by (simp add: plainMounted_def)
  show ?thesis
    unfolding plain_down_circle
    using t by (simp add: a0 p0 decimal_7)
qed

text \<open>
  C5 as stated fails on AnnotationCanvas.jsx: a circle drawn from (100, 100) to (130, 140)
  is stored with x = y = 50, not at its start point, and is not drawn centred at the
  stored x, y.
\<close>

theorem plain_circle_stores_corner_counterexample:
  "pc_annotations (handleCanvasMouseUp \<lparr>clientX = 130, clientY = 140\<rparr> element800
       (handleCanvasMouseDown \<lparr>clientX = 100, clientY = 100\<rparr> element800
          (plainMounted CircleT)))
     = [plainCircle 50 50 50] \<and>
   (ann_x (plainCircle 50 50 50), ann_y (plainCircle 50 50 50)) \<noteq> (100, 100) \<and>
   drawCircle (plainCircle 50 50 50) \<noteq> Some (50, 50, 50)"
  unfolding plain_down_circle
  by (simp add: handleCanvasMouseUp_def plainMounted_def Let_def sqrt_2500
        plainCircle_def drawCircle_def)

section \<open>Moving an annotation\<close>

lemma spread_moved:
  "spread a (a\<lparr>ann_x := ex, ann_y := ey\<rparr>) = a\<lparr>ann_x := ex, ann_y := ey\<rparr>"
  by (simp add: spread_def orElse_def split: option.splits)

lemma onDragEnd_length: "length (onDragEnd a ex ey anns) = length anns"
  by (simp add: onDragEnd_def handleAnnotationChange_def)

lemma onDragEnd_nth:
  "j < length anns \<Longrightarrow>
   onDragEnd a ex ey anns ! j =
     (if ann_id (anns ! j) = ann_id a then spread (anns ! j) (a\<lparr>ann_x := ex, ann_y := ey\<rparr>)
      else anns ! j)"
  by (simp add: onDragEnd_def handleAnnotationChange_def)

lemma onDragEnd_unique:
  assumes "i < length anns"
    and "\<forall>j<length anns. j \<noteq> i \<longrightarrow> ann_id (anns ! j) \<noteq> ann_id (anns ! i)"
  shows "onDragEnd (anns ! i) ex ey anns = anns[i := (anns ! i)\<lparr>ann_x := ex, ann_y := ey\<rparr>]"
proof (rule nth_equalityI)
  show "length (onDragEnd (anns ! i) ex ey anns)
          = length (anns[i := (anns ! i)\<lparr>ann_x := ex, ann_y := ey\<rparr>])"
    by (simp add: onDragEnd_length)
next
  fix j
  assume "j < length (onDragEnd (anns ! i) ex ey anns)"
  then have j: "j < length anns"
    by (simp add: onDragEnd_length)
  show "onDragEnd (anns ! i) ex ey anns ! j
          = anns[i := (anns ! i)\<lparr>ann_x := ex, ann_y := ey\<rparr>] ! j"
  proof (cases "j = i")
    case True
    then show ?thesis
      using assms(1) by (simp add: onDragEnd_nth spread_moved)
  next
    case False
    then show ?thesis
      using assms(2) j by (simp add: onDragEnd_nth)
  qed
qed

lemma moves_idle: "\<not> isDrawing st \<Longrightarrow> run st (map StageMouseMove ps) = st"
  by (induction ps arbitrary: st) (simp_all add: handleStageMouseMove_def settle_def)

text \<open>
  C7 (as amended).  When no other annotation in the list has the id of the dragged
  annotation A, the drag-end commit replaces A by A with its x and y set to the final
  position: every other entry, A's other fields, and the length and order of the list are
  unchanged.  Pointer moves during the drag do not write the list; the position is written
  at drag-end.
\<close>

theorem drag_end_changes_only_dragged_position:
  fixes st :: "string canvas"
  assumes "i < length (annotations st)"
    and "\<forall>j<length (annotations st). j \<noteq> i \<longrightarrow>
           ann_id (annotations st ! j) \<noteq> ann_id (annotations st ! i)"
    and "\<not> isDrawing st"
  shows
   "run st (map StageMouseMove ps @ [AnnotationDragEnd i ex ey]) =
      st\<lparr>annotations := (annotations st)[i := (annotations st ! i)\<lparr>ann_x := ex, ann_y := ey\<rparr>]\<rparr> \<and>
    run st (map StageMouseMove ps) = st \<and>
    length (onDragEnd (annotations st ! i) ex ey (annotations st)) = length (annotations st) \<and>
    onDragEnd (annotations st ! i) ex ey (annotations st) ! i
      = (annotations st ! i)\<lparr>ann_x := ex, ann_y := ey\<rparr> \<and>
    (\<forall>j<length (annotations st). j \<noteq> i \<longrightarrow>
       onDragEnd (annotations st ! i) ex ey (annotations st) ! j = annotations st ! j)"
  using assms
  by (simp add: moves_idle dragAnnotation_def onDragEnd_unique)

theorem drag_end_changes_only_dragged_position_witness:
  "run twoAnnotations [StageMouseMove (15, 15), StageMouseMove (40, 45), AnnotationDragEnd 0 30 40]
     = twoAnnotations\<lparr>annotations :=
         [newRect ''rect-1'' 30 40 90 70, newMarker ''marker-2'' 200 50 1 ''Submit'']\<rparr>"
proof -
  have h1: "0 < length (annotations twoAnnotations)"
    by (simp add: twoAnnotations_def)
  have h2: "\<forall>j<length (annotations twoAnnotations). j \<noteq> 0 \<longrightarrow>
              ann_id (annotations twoAnnotations ! j) \<noteq> ann_id (annotations twoAnnotations ! 0)"
    by (simp add: twoAnnotations_def newRect_def newMarker_def less_Suc_eq)
  have h3: "\<not> isDrawing twoAnnotations"
    by (simp add: twoAnnotations_def)
  have upd: "(annotations twoAnnotations)[0 := (annotations twoAnnotations ! 0)\<lparr>ann_x := 30, ann_y := 40\<rparr>]
      = [newRect ''rect-1'' 30 40 90 70, newMarker ''marker-2'' 200 50 1 ''Submit'']"
    by (simp add: twoAnnotations_def newRect_def)
  show ?thesis
    using drag_end_changes_only_dragged_position
      [OF h1 h2 h3, of "[(15, 15), (40, 45)]" 30 40, THEN conjunct1]
    unfolding upd by (simp del: run_Cons run_append)
qed

lemma two_rects_same_clock:
  "annotations (run (mounted RectT (800, 600) (Some (800, 600)))
      (dragEvents (10, 10) [(100, 80)] 7 @ dragEvents (200, 200) [(300, 320)] 7))
   = [newRect ''rect-7'' 10 10 90 70, newRect ''rect-7'' 200 200 100 120]"
  by (simp add: drag_rect_konva mounted_def finalPoint_def decimal_7)

text \<open>
  C7 as stated fails when two annotations share an id: two rects committed at the same
  clock reading both get the id rect-7, and dragging the first one to (0, 0) overwrites
  the second with a copy of the first.
\<close>

theorem drag_end_shared_id_counterexample:
  "annotations (run (mounted RectT (800, 600) (Some (800, 600)))
      (dragEvents (10, 10) [(100, 80)] 7 @ dragEvents (200, 200) [(300, 320)] 7))
   = [newRect ''rect-7'' 10 10 90 70, newRect ''rect-7'' 200 200 100 120] \<and>
   annotations (run (mounted RectT (800, 600) (Some (800, 600)))
      (dragEvents (10, 10) [(100, 80)] 7 @ dragEvents (200, 200) [(300, 320)] 7
         @ [AnnotationDragEnd 0 0 0]))
   = [newRect ''rect-7'' 0 0 90 70, newRect ''rect-7'' 0 0 90 70] \<and>
   newRect ''rect-7'' 0 0 90 70 \<noteq> newRect ''rect-7'' 200 200 100 120"
proof -
  have "run (mounted RectT (800, 600) (Some (800, 600)))
      (dragEvents (10, 10) [(100, 80)] 7 @ dragEvents (200, 200) [(300, 320)] 7
         @ [AnnotationDragEnd 0 0 0])
    = step (run (mounted RectT (800, 600) (Some (800, 600)))
      (dragEvents (10, 10) [(100, 80)] 7 @ dragEvents (200, 200) [(300, 320)] 7))
        (AnnotationDragEnd 0 0 0)"
    by (simp only: run_append run_Cons run_Nil)
  then show ?thesis
    using two_rects_same_clock
    by (simp add: dragAnnotation_def onDragEnd_def handleAnnotationChange_def spread_def
          orElse_def newRect_def)
qed

section \<open>Export\<close>

lemma timestamp_example:
  "timestamp ''2026-01-02T03:04:05.678Z'' = ''2026-01-02T03-04-05''"
  by (simp add: timestamp_def)

lemma undecodedApp_canvas:
  "app_canvas undecodedApp =
     (mounted MarkerT (1024, 768) None)
       \<lparr>annotations := [newMarker ''marker-5'' 100 100 1 ''Submit'']\<rparr>"
  by (simp add: undecodedApp_def mounted_def handleStageMouseDown_def settle_def
        markerCount_def orEmpty_def decimal_5)

text \<open>
  C9 (as amended).  Export without a ready surface is skipped: with a null ref
  exportCanvasToPNG, exportToPNG and the ExportButton's handleExport produce no download
  (and touch no state: they only return effects), and while the application holds no image
  the canvas is not mounted, so its ref is null and export from there is skipped as well.
  Whether the base image has loaded is not tested: once the canvas is mounted, export
  downloads a raster of the surface, the same whatever the decoded bitmap is.
\<close>

theorem export_without_surface_is_noop:
  "exportCanvasToPNG None filename = [] \<and>
   exportToPNG None filename = [] \<and>
   handleExport None isoString = [] \<and>
   (app_image a = None \<longrightarrow> canvasRef a = None \<and> App_handleExport isoString a = []) \<and>
   (pa_image b = None \<longrightarrow> plainCanvasRef b = None \<and> handleExport (plainCanvasRef b) isoString = []) \<and>
   (app_image a \<noteq> None \<longrightarrow>
      App_handleExport isoString a =
        [Download (''annotated-'' @ timestamp isoString @ ''.png'')
           \<lparr> raster_width = fst (dimensions (app_canvas a)) * 2,
             raster_height = snd (dimensions (app_canvas a)) * 2 \<rparr>]) \<and>
   (pa_image b \<noteq> None \<longrightarrow>
      handleExport (plainCanvasRef b) isoString =
        [Download (''annotated-image-'' @ timestamp isoString @ ''.png'')
           \<lparr> raster_width = el_width (pa_element b),
             raster_height = el_height (pa_element b) \<rparr>]) \<and>
   App_handleExport isoString (a\<lparr>app_canvas := (app_canvas a)\<lparr>img := loaded\<rparr>\<rparr>)
     = App_handleExport isoString a"
  by (simp add: exportCanvasToPNG_def exportToPNG_def handleExport_def canvasRef_def
        App_handleExport_def plainCanvasRef_def toDataURL_def stageOf_def)

theorem export_without_surface_is_noop_witness:
  "App_handleExport ''2026-01-02T03:04:05.678Z''
      \<lparr> app_image = None, app_canvas = mounted MarkerT (800, 600) None \<rparr> = [] \<and>
   handleExport (plainCanvasRef \<lparr> pa_image = None, pa_element = element800 \<rparr>)
      ''2026-01-02T03:04:05.678Z'' = [] \<and>
   App_handleExport ''2026-01-02T03:04:05.678Z''
      \<lparr> app_image = Some ''data:image/png;base64,AAAA'',
        app_canvas = mounted MarkerT (1024, 768) (Some (800, 600)) \<rparr>
     = [Download ''annotated-2026-01-02T03-04-05.png''
          \<lparr> raster_width = 2048, raster_height = 1536 \<rparr>] \<and>
   handleExport (plainCanvasRef \<lparr> pa_image = Some ''data:image/png;base64,AAAA'',
                                  pa_element = element800 \<rparr>)
      ''2026-01-02T03:04:05.678Z''
     = [Download ''annotated-image-2026-01-02T03-04-05.png''
          \<lparr> raster_width = 800, raster_height = 600 \<rparr>]"
  using
    export_without_surface_is_noop
      [of "[]" "''2026-01-02T03:04:05.678Z''"
          "\<lparr> app_image = None, app_canvas = mounted MarkerT (800, 600) None \<rparr>"
          "\<lparr> pa_image = None, pa_element = element800 \<rparr>" None]
    export_without_surface_is_noop
      [of "[]" "''2026-01-02T03:04:05.678Z''"
          "\<lparr> app_image = Some ''data:image/png;base64,AAAA'',
             app_canvas = mounted MarkerT (1024, 768) (Some (800, 600)) \<rparr>"
          "\<lparr> pa_image = Some ''data:image/png;base64,AAAA'', pa_element = element800 \<rparr>"
          None]
  by (simp add: timestamp_example mounted_def element800_def)

text \<open>
  C9 as stated fails when the canvas is mounted but no base image has loaded: the
  application holds a file that does not decode, a marker has been placed, and export
  downloads a 2048 by 1536 PNG; the plain canvas, still at its default bitmap size,
  downloads a 300 by 150 PNG.
\<close>

theorem export_with_undecoded_image_counterexample:
  "img (app_canvas undecodedApp) = None \<and>
   App_handleExport ''2026-01-02T03:04:05.678Z'' undecodedApp
     = [Download ''annotated-2026-01-02T03-04-05.png''
          \<lparr> raster_width = 2048, raster_height = 1536 \<rparr>] \<and>
   handleExport (plainCanvasRef undecodedPlainApp) ''2026-01-02T03:04:05.678Z''
     = [Download ''annotated-image-2026-01-02T03-04-05.png''
          \<lparr> raster_width = 300, raster_height = 150 \<rparr>]"
proof -
  have i: "app_image undecodedApp = Some ''data:text/plain;base64,AAAA''"
    by (simp add: undecodedApp_def)
  have d: "dimensions (app_canvas undecodedApp) = (1024, 768)"
    and n: "img (app_canvas undecodedApp) = None"
    by (simp_all add: undecodedApp_canvas mounted_def)
  show ?thesis
    by (simp add: App_handleExport_def canvasRef_def exportCanvasToPNG_def toDataURL_def
          stageOf_def i d n undecodedPlainApp_def handleExport_def plainCanvasRef_def
          timestamp_example)
qed

text \<open>
  C1.  The raster exported by the Konva canvas has the size of the stage, which is the size
  of the container, times the pixelRatio (2 in KonvaCanvas.jsx, 1 in its earlier revision);
  the image's intrinsic size does not enter.  An 800 by 600 image in a 1024 by 768
  container is exported as 2048 by 1536 (1024 by 768 in the earlier revision), whereas the
  plain canvas, whose bitmap drawCanvas sizes to the image, exports 800 by 600.
\<close>

theorem export_raster_follows_stage_not_image:
  "exportCanvasToPNG (Some (stageOf st)) filename =
     [Download filename
        \<lparr> raster_width = fst (dimensions st) * 2, raster_height = snd (dimensions st) * 2 \<rparr>] \<and>
   exportToPNG (Some (stageOf st)) filename =
     [Download filename
        \<lparr> raster_width = fst (dimensions st), raster_height = snd (dimensions st) \<rparr>] \<and>
   exportCanvasToPNG
     (Some (stageOf (updateSize (Some (1024, 768))
        (mounted MarkerT (800, 600) (Some (800, 600)) :: string canvas)))) ''annotated.png''
     = [Download ''annotated.png'' \<lparr> raster_width = 2048, raster_height = 1536 \<rparr>] \<and>
   exportToPNG
     (Some (stageOf (updateSize (Some (1024, 768))
        (mounted MarkerT (1000, 800) (Some (800, 600)) :: nat canvas)))) ''annotated.png''
     = [Download ''annotated.png'' \<lparr> raster_width = 1024, raster_height = 768 \<rparr>] \<and>
   handleExport
     (Some (drawCanvas (800, 600)
        \<lparr> el_width = 300, el_height = 150, rect_left = 0, rect_top = 0,
          rect_width = 1024, rect_height = 768 \<rparr>)) ''2026-01-02T03:04:05.678Z''
     = [Download ''annotated-image-2026-01-02T03-04-05.png''
          \<lparr> raster_width = 800, raster_height = 600 \<rparr>]"
  by (simp add: exportCanvasToPNG_def exportToPNG_def toDataURL_def stageOf_def updateSize_def
        mounted_def handleExport_def drawCanvas_def timestamp_def)

section \<open>Marker numbering\<close>

lemma grows_refl [simp]: "grows anns anns"
  by (simp add: grows_def)

lemma grows_marker [simp]: "grows anns (anns @ [newMarker i px py (Suc (markerCount anns)) l])"
  by (simp add: grows_def newMarker_def)

lemma grows_text [simp]: "grows anns (anns @ [newText i px py s])"
  by (simp add: grows_def newText_def)

lemma grows_rect [simp]: "grows anns (anns @ [newRect i bx by w h])"
  by (simp add: grows_def newRect_def)

lemma grows_circle [simp]: "grows anns (anns @ [newCircle i cx cy r])"
  by (simp add: grows_def newCircle_def)

lemma down_grows: "grows (annotations st) (annotations (settle (handleStageMouseDown b (Some p) r t st)))"
  by (cases p) (simp add: handleStageMouseDown_def settle_def Let_def split: option.splits)

lemma move_keeps: "annotations (settle (handleStageMouseMove (Some p) st)) = annotations st"
  by (cases p) (simp add: handleStageMouseMove_def settle_def Let_def split: option.splits)

lemma up_grows: "grows (annotations st) (annotations (settle (handleStageMouseUp t st)))"
  by (simp add: handleStageMouseUp_def settle_def Let_def split: option.splits prod.splits)

lemma step_grows: "creationEvent e \<Longrightarrow> grows (annotations st) (annotations (step st e))"
  by (cases e)
    (simp_all add: down_grows move_keeps up_grows handleStageClick_def selectAnnotation_def
       updateSize_def)

lemma numbered_grows:
  assumes "numbered before" and "grows before after"
  shows "numbered after"
proof -
  from assms(2) consider "after = before"
    | a where "after = before @ [a]" "ann_type a \<noteq> MarkerT"
    | a where "after = before @ [a]" "ann_type a = MarkerT"
        "ann_number a = Some (markerCount before + 1)"
    unfolding grows_def by (auto split: if_splits)
  then show ?thesis
  proof cases
    case 1
    with assms(1) show ?thesis by simp
  next
    case 2
    with assms(1) show ?thesis by (simp add: numbered_def markerCount_def)
  next
    case 3
    with assms(1) show ?thesis by (simp add: numbered_def markerCount_def)
  qed
qed

lemma grows_drop:
  "grows before after \<Longrightarrow> after = before @ drop (length before) after"
  by (auto simp add: grows_def)

lemma run_creation:
  assumes "\<forall>e\<in>set evs. creationEvent e" and "numbered (annotations st)"
  shows "numbered (annotations (run st evs)) \<and>
         annotations (run st evs) = annotations st @ created st evs"
  using assms
proof (induction evs arbitrary: st)
  case Nil
  then show ?case by simp
next
  case (Cons e evs)
  have g: "grows (annotations st) (annotations (step st e))"
    using Cons.prems(1) by (simp add: step_grows)
  have n: "numbered (annotations (step st e))"
    using Cons.prems(2) g by (rule numbered_grows)
  have ih: "numbered (annotations (run (step st e) evs)) \<and>
            annotations (run (step st e) evs) = annotations (step st e) @ created (step st e) evs"
    using Cons.prems(1) n by (intro Cons.IH) simp_all
  show ?case
    using ih grows_drop [OF g] by (simp del: step.simps) metis
qed

lemma down_grows_earlier:
  "grows (annotations st) (annotations (handleMouseDown b (Some p) r t st))"
  by (cases p) (simp add: handleMouseDown_def Let_def split: option.splits)

lemma move_keeps_earlier: "annotations (handleMouseMove (Some p) st) = annotations st"
  by (cases p) (simp add: handleMouseMove_def Let_def split: option.splits)

lemma up_grows_earlier: "grows (annotations st) (annotations (handleMouseUp t st))"
  by (simp add: handleMouseUp_def Let_def split: option.splits prod.splits)

lemma stepEarlier_grows:
  "creationEvent e \<Longrightarrow> grows (annotations st) (annotations (stepEarlier st e))"
  by (cases e)
    (simp_all add: down_grows_earlier move_keeps_earlier up_grows_earlier selectAnnotation_def
       updateSize_def)

lemma runEarlier_creation:
  assumes "\<forall>e\<in>set evs. creationEvent e" and "numbered (annotations st)"
  shows "numbered (annotations (runEarlier st evs)) \<and>
         annotations (runEarlier st evs) = annotations st @ createdEarlier st evs"
  using assms
proof (induction evs arbitrary: st)
  case Nil
  then show ?case by simp
next
  case (Cons e evs)
  have g: "grows (annotations st) (annotations (stepEarlier st e))"
    using Cons.prems(1) by (simp add: stepEarlier_grows)
  have n: "numbered (annotations (stepEarlier st e))"
    using Cons.prems(2) g by (rule numbered_grows)
  have ih: "numbered (annotations (runEarlier (stepEarlier st e) evs)) \<and>
            annotations (runEarlier (stepEarlier st e) evs)
              = annotations (stepEarlier st e) @ createdEarlier (stepEarlier st e) evs"
    using Cons.prems(1) n by (intro Cons.IH) simp_all
  show ?case
    using ih grows_drop [OF g] by (simp del: stepEarlier.simps) metis
qed

lemma numbered_nth:
  assumes "numbered anns" and "k < markerCount anns"
  shows "ann_number (filter (\<lambda>a. ann_type a = MarkerT) anns ! k) = Some (Suc k)"
proof -
  have "map ann_number (filter (\<lambda>a. ann_type a = MarkerT) anns) ! k
          = map Some [1..<Suc (markerCount anns)] ! k"
    using assms(1) by (simp add: numbered_def)
  then show ?thesis
    using assms(2) by (simp add: markerCount_def del: upt_Suc)
qed

text \<open>
  C2 (as amended).  For every sequence of creation events with no deletion, starting from
  an empty list, the k-th marker created has number k, however many non-marker annotations
  are created in between: the annotations created are the list itself, and its markers
  carry 1, 2, 3 and so on in order.  (A new marker's number is the count of markers then in
  the list plus one, so after a deletion numbers repeat.)
\<close>

theorem markers_numbered_in_creation_order:
  fixes st :: "string canvas" and st' :: "nat canvas"
  assumes "\<forall>e\<in>set evs. creationEvent e" and "annotations st = []" and "annotations st' = []"
  shows
   "created st evs = annotations (run st evs) \<and>
    map ann_number (filter (\<lambda>a. ann_type a = MarkerT) (created st evs))
      = map Some [1..<Suc (markerCount (created st evs))] \<and>
    (\<forall>k<markerCount (created st evs).
       ann_number (filter (\<lambda>a. ann_type a = MarkerT) (created st evs) ! k) = Some (Suc k)) \<and>
    createdEarlier st' evs = annotations (runEarlier st' evs) \<and>
    map ann_number (filter (\<lambda>a. ann_type a = MarkerT) (createdEarlier st' evs))
      = map Some [1..<Suc (markerCount (createdEarlier st' evs))] \<and>
    (\<forall>k<markerCount (createdEarlier st' evs).
       ann_number (filter (\<lambda>a. ann_type a = MarkerT) (createdEarlier st' evs) ! k)
         = Some (Suc k))"
proof -
  have n0: "numbered (annotations st)" "numbered (annotations st')"
    using assms(2,3) by (simp_all add: numbered_def markerCount_def)
  have k: "annotations (run st evs) = created st evs"
    using run_creation [OF assms(1) n0(1), THEN conjunct2] assms(2) by simp
  have e: "annotations (runEarlier st' evs) = createdEarlier st' evs"
    using runEarlier_creation [OF assms(1) n0(2), THEN conjunct2] assms(3) by simp
  have nk: "numbered (created st evs)"
    using run_creation [OF assms(1) n0(1), THEN conjunct1] unfolding k .
  have ne: "numbered (createdEarlier st' evs)"
    using runEarlier_creation [OF assms(1) n0(2), THEN conjunct1] unfolding e .
  have "map ann_number (filter (\<lambda>a. ann_type a = MarkerT) (created st evs))
          = map Some [1..<Suc (markerCount (created st evs))]"
    using nk unfolding numbered_def .
  moreover have "map ann_number (filter (\<lambda>a. ann_type a = MarkerT) (createdEarlier st' evs))
          = map Some [1..<Suc (markerCount (createdEarlier st' evs))]"
    using ne unfolding numbered_def .
  ultimately show ?thesis
    using k e numbered_nth [OF nk] numbered_nth [OF ne] by simp
qed

lemma mixedCreation_created:
  "created (mounted MarkerT (800, 600) (Some (800, 600))) mixedCreation
     = [newMarker ''marker-5'' 100 100 1 ''Submit'', newRect ''rect-7'' 10 10 90 70,
        newMarker ''marker-9'' 200 50 2 []]"
  by (simp add: mixedCreation_def mounted_def handleStageMouseDown_def handleStageMouseMove_def
        handleStageMouseUp_def settle_def markerCount_def orEmpty_def rectCommit_def
        circleCommit_def decimal_5 decimal_7 decimal_9 newMarker_def newRect_def)

theorem markers_numbered_in_creation_order_witness:
  "map ann_number (filter (\<lambda>a. ann_type a = MarkerT)
      (created (mounted MarkerT (800, 600) (Some (800, 600))) mixedCreation))
     = [Some 1, Some 2] \<and>
   annotations (run (mounted MarkerT (800, 600) (Some (800, 600))) mixedCreation)
     = [newMarker ''marker-5'' 100 100 1 ''Submit'', newRect ''rect-7'' 10 10 90 70,
        newMarker ''marker-9'' 200 50 2 []]"
proof -
  have h1: "\<forall>e\<in>set mixedCreation. creationEvent e"
    by (simp add: mixedCreation_def)
  have h2: "annotations (mounted MarkerT (800, 600) (Some (800, 600)) :: string canvas) = []"
    and h3: "annotations (mounted MarkerT (800, 600) (Some (800, 600)) :: nat canvas) = []"
    by (simp_all add: mounted_def)
  have c: "markerCount (created (mounted MarkerT (800, 600) (Some (800, 600))) mixedCreation) = 2"
    by (simp add: mixedCreation_created markerCount_def newMarker_def newRect_def)
  note t = markers_numbered_in_creation_order [OF h1 h2 h3]
  have "map ann_number (filter (\<lambda>a. ann_type a = MarkerT)
      (created (mounted MarkerT (800, 600) (Some (800, 600))) mixedCreation))
     = map Some [1..<Suc 2]"
    using t [THEN conjunct2, THEN conjunct1] unfolding c .
  moreover have "annotations (run (mounted MarkerT (800, 600) (Some (800, 600))) mixedCreation)
     = [newMarker ''marker-5'' 100 100 1 ''Submit'', newRect ''rect-7'' 10 10 90 70,
        newMarker ''marker-9'' 200 50 2 []]"
    using t [THEN conjunct1] unfolding mixedCreation_created by simp
  ultimately show ?thesis
    by (simp add: upt_conv_Cons del: upt_Suc)
qed

text \<open>
  C2 as stated fails once a deletion is involved: marker, clear all, marker creates two
  markers, and the second marker created has number 1, not 2.
\<close>

theorem marker_number_repeats_after_clear_counterexample:
  "map ann_number (filter (\<lambda>a. ann_type a = MarkerT)
      (created (mounted MarkerT (800, 600) (Some (800, 600)))
         [StageMouseDown True (100, 100) (Some ''Submit'') 5,
          ClearAnnotations True,
          StageMouseDown True (200, 50) (Some []) 9]))
     = [Some 1, Some 1]"
  by (simp add: mounted_def handleStageMouseDown_def settle_def markerCount_def orEmpty_def
        handleClearAnnotations_def newMarker_def)

section \<open>Annotation ids\<close>

lemma digit_values:
  "digit 0 = CHR ''0''" "digit 1 = CHR ''1''" "digit 2 = CHR ''2''" "digit 3 = CHR ''3''"
  "digit 4 = CHR ''4''" "digit 5 = CHR ''5''" "digit 6 = CHR ''6''" "digit 7 = CHR ''7''"
  "digit 8 = CHR ''8''" "digit 9 = CHR ''9''" "digit (Suc 0) = CHR ''1''"
  by (simp_all add: digit_def)

lemma below_ten: "(a::nat) < 10 \<Longrightarrow> a \<in> {0, 1, 2, 3, 4, 5, 6, 7, 8, 9}"
  by auto

lemma digit_inj:
  assumes "a < 10" and "b < 10" and "digit a = digit b"
  shows "a = b"
  using below_ten [OF assms(1)] below_ten [OF assms(2)] assms(3)
  by (auto simp add: digit_values)

lemma decimal_nonempty: "decimal n \<noteq> []"
  by (subst decimal.simps) simp

lemma decimal_inj: "decimal n = decimal m \<Longrightarrow> n = m"
proof (induction n arbitrary: m rule: decimal.induct)
  case (1 n)
  show ?case
  proof (cases "n < 10")
    case small_n: True
    show ?thesis
    proof (cases "m < 10")
      case True
      with small_n "1.prems" show ?thesis
        by (simp add: decimal.simps [of n] decimal.simps [of m] digit_inj)
    next
      case False
      with small_n "1.prems" decimal_nonempty [of "m div 10"] show ?thesis
        by (simp add: decimal.simps [of n] decimal.simps [of m])
    qed
  next
    case big_n: False
    show ?thesis
    proof (cases "m < 10")
      case True
      with big_n "1.prems" decimal_nonempty [of "n div 10"] show ?thesis
        by (simp add: decimal.simps [of n] decimal.simps [of m])
    next
      case False
      with big_n "1.prems"
      have eq: "decimal (n div 10) = decimal (m div 10)" "digit (n mod 10) = digit (m mod 10)"
        by (simp_all add: decimal.simps [of n] decimal.simps [of m])
      have "n div 10 = m div 10"
        using "1.IH" [OF big_n eq(1)] .
      moreover have "n mod 10 = m mod 10"
        using eq(2) by (intro digit_inj) simp_all
      ultimately show ?thesis
        by (metis div_mult_mod_eq)
    qed
  qed
qed

lemma stamped_id_inj:
  assumes "p \<in> prefixes" and "q \<in> prefixes" and "p @ decimal n = q @ decimal m"
  shows "n = m"
proof -
  have "p = q"
    using assms by (auto simp add: prefixes_def)
  with assms(3) show ?thesis
    by (simp add: decimal_inj)
qed

lemma stamped_apart:
  assumes "stampedBelow b i" and "stampedFrom b j"
  shows "i \<noteq> j"
proof
  assume "i = j"
  from assms(1) obtain p t where p: "p \<in> prefixes" "t < b" "i = p @ decimal t"
    unfolding stampedBelow_def by blast
  from assms(2) obtain q u where q: "q \<in> prefixes" "b \<le> u" "j = q @ decimal u"
    unfolding stampedFrom_def by blast
  have "t = u"
    using p(1) q(1) p(3) q(3) \<open>i = j\<close> by (intro stamped_id_inj [of p q t u]) simp_all
  with p(2) q(2) show False by simp
qed

lemma stampedBelow_mono: "stampedBelow b i \<Longrightarrow> b \<le> c \<Longrightarrow> stampedBelow c i"
  unfolding stampedBelow_def using less_le_trans by blast

lemma stampedFrom_mono: "stampedFrom c i \<Longrightarrow> b \<le> c \<Longrightarrow> stampedFrom b i"
  unfolding stampedFrom_def using le_trans by blast

lemma appendsStamped_new:
  "appendsStamped t anns (anns @ [newMarker (''marker-'' @ decimal t) px py n l])"
  "appendsStamped t anns (anns @ [newText (''text-'' @ decimal t) px py s])"
  "appendsStamped t anns (anns @ [newRect (''rect-'' @ decimal t) bx by w h])"
  "appendsStamped t anns (anns @ [newCircle (''circle-'' @ decimal t) cx cy r])"
  by (simp_all add: appendsStamped_def prefixes_def newMarker_def newText_def newRect_def
        newCircle_def)

lemma down_shape:
  "appendsStamped t (annotations st) (annotations (settle (handleStageMouseDown b (Some p) r t st)))
   \<or> annotations (settle (handleStageMouseDown b (Some p) r t st)) = annotations st"
  by (cases p)
    (simp add: handleStageMouseDown_def settle_def Let_def appendsStamped_new
       split: option.splits del: append.simps)

lemma up_shape:
  "appendsStamped t (annotations st) (annotations (settle (handleStageMouseUp t st)))
   \<or> annotations (settle (handleStageMouseUp t st)) = annotations st"
  by (simp add: handleStageMouseUp_def settle_def Let_def appendsStamped_new
        split: option.splits prod.splits del: append.simps)

lemma spread_id: "ann_id (spread ann newProps) = ann_id newProps"
  by (simp add: spread_def)

lemma onDragEnd_ids: "map ann_id (onDragEnd a ex ey anns) = map ann_id anns"
  by (simp add: onDragEnd_def handleAnnotationChange_def spread_id)

lemma step_shape:
  "(\<exists>t. eventTime e = [t] \<and> appendsStamped t (annotations st) (annotations (step st e)))
   \<or> map ann_id (annotations (step st e)) = map ann_id (annotations st)
   \<or> annotations (step st e) = []"
proof (cases e)
  case (StageMouseDown b p r t)
  then show ?thesis using down_shape [of t st b p r] by auto
next
  case (StageMouseUp t)
  then show ?thesis using up_shape [of t st] by auto
next
  case (AnnotationDragEnd i ex ey)
  then show ?thesis by (simp add: dragAnnotation_def onDragEnd_ids)
qed (simp_all add: move_keeps handleStageClick_def selectAnnotation_def
      handleClearAnnotations_def updateSize_def)

lemma sorted_clock_Cons:
  assumes "sorted_wrt (<) (clock (e # evs))"
  shows "sorted_wrt (<) (clock evs)" and "\<forall>t\<in>set (eventTime e). \<forall>u\<in>set (clock evs). t < u"
  using assms by (simp_all add: clock_def sorted_wrt_append)

lemma ids_invariant:
  assumes "sorted_wrt (<) (clock evs)" and "\<forall>t\<in>set (clock evs). b \<le> t"
    and "distinct (map ann_id (annotations st))"
    and "\<forall>a\<in>set (annotations st). stampedBelow b (ann_id a)"
  shows "distinct (map ann_id (created st evs)) \<and>
         (\<forall>a\<in>set (created st evs). stampedFrom b (ann_id a)) \<and>
         distinct (map ann_id (annotations (run st evs))) \<and>
         set (map ann_id (annotations (run st evs)))
           \<subseteq> set (map ann_id (annotations st)) \<union> set (map ann_id (created st evs))"
  using assms
proof (induction evs arbitrary: st b)
  case Nil
  then show ?case by simp
next
  case (Cons e evs)
  let ?st = "step st e"
  have sorted: "sorted_wrt (<) (clock evs)"
    and later: "\<forall>t\<in>set (eventTime e). \<forall>u\<in>set (clock evs). t < u"
    using sorted_clock_Cons [OF Cons.prems(1)] by simp_all
  have from_b: "\<forall>t\<in>set (eventTime e). b \<le> t" "\<forall>t\<in>set (clock evs). b \<le> t"
    using Cons.prems(2) by (simp_all add: clock_def)
  consider (new) t where "eventTime e = [t]" "appendsStamped t (annotations st) (annotations ?st)"
    | (kept) "map ann_id (annotations ?st) = map ann_id (annotations st)"
    | (cleared) "annotations ?st = []"
    using step_shape [of e st] by blast
  then show ?case
  proof cases
    case new
    then obtain a p where a: "annotations ?st = annotations st @ [a]" "p \<in> prefixes"
      "ann_id a = p @ decimal t"
      unfolding appendsStamped_def by blast
    have bt: "b \<le> t" using from_b(1) new(1) by simp
    have a_from: "stampedFrom b (ann_id a)"
      unfolding stampedFrom_def using a(2,3) bt by blast
    have a_below: "stampedBelow (Suc t) (ann_id a)"
      unfolding stampedBelow_def using a(2,3) by blast
    have fresh: "ann_id a \<notin> set (map ann_id (annotations st))"
    proof
      assume "ann_id a \<in> set (map ann_id (annotations st))"
      then obtain x where x: "x \<in> set (annotations st)" "ann_id x = ann_id a"
        by auto
      then have "stampedBelow b (ann_id a)"
        using Cons.prems(4) by metis
      from stamped_apart [OF this a_from] show False
        by simp
    qed
    have d: "distinct (map ann_id (annotations ?st))"
      using Cons.prems(3) fresh by (simp add: a(1))
    have below: "\<forall>x\<in>set (annotations ?st). stampedBelow (Suc t) (ann_id x)"
      using Cons.prems(4) a_below bt stampedBelow_mono [of b _ "Suc t"] by (auto simp add: a(1))
    have next_from: "\<forall>u\<in>set (clock evs). Suc t \<le> u"
      using later new(1) by auto
    note ih = Cons.IH [OF sorted next_from d below]
    have rest_from: "\<forall>x\<in>set (created ?st evs). stampedFrom (Suc t) (ann_id x)"
      using ih by blast
    have a_not_rest: "ann_id a \<notin> set (map ann_id (created ?st evs))"
    proof
      assume "ann_id a \<in> set (map ann_id (created ?st evs))"
      then obtain x where x: "x \<in> set (created ?st evs)" "ann_id x = ann_id a"
        by auto
      then have "stampedFrom (Suc t) (ann_id a)"
        using rest_from by metis
      from stamped_apart [OF a_below this] show False
        by simp
    qed
    have c: "created st (e # evs) = a # created ?st evs"
      by (simp add: a(1) del: step.simps)
    have rest_from_b: "\<forall>x\<in>set (created ?st evs). stampedFrom b (ann_id x)"
      using rest_from bt stampedFrom_mono [of "Suc t" _ b] by auto
    show ?thesis
      unfolding c using ih a_not_rest a_from rest_from_b
      by (auto simp add: a(1) simp del: step.simps)
  next
    case kept
    have len: "length (annotations ?st) = length (annotations st)"
      using kept by (metis length_map)
    have d: "distinct (map ann_id (annotations ?st))"
      using Cons.prems(3) kept by simp
    have below: "\<forall>x\<in>set (annotations ?st). stampedBelow b (ann_id x)"
    proof
      fix x assume "x \<in> set (annotations ?st)"
      then have "ann_id x \<in> set (map ann_id (annotations st))"
        using kept by (metis image_eqI list.set_map)
      then show "stampedBelow b (ann_id x)"
        using Cons.prems(4) by auto
    qed
    note ih = Cons.IH [OF sorted from_b(2) d below]
    have c: "created st (e # evs) = created ?st evs"
      by (simp add: len del: step.simps)
    show ?thesis
      unfolding c using ih kept by (simp del: step.simps)
  next
    case cleared
    have d: "distinct (map ann_id (annotations ?st))"
      and below: "\<forall>x\<in>set (annotations ?st). stampedBelow b (ann_id x)"
      by (simp_all add: cleared)
    note ih = Cons.IH [OF sorted from_b(2) d below]
    have c: "created st (e # evs) = created ?st evs"
      by (simp add: cleared del: step.simps)
    show ?thesis
      unfolding c using ih by (auto simp add: cleared simp del: step.simps)
  qed
qed

lemma appendsId_new:
  "appendsId t anns (anns @ [newMarker t px py n l])"
  "appendsId t anns (anns @ [newText t px py s])"
  "appendsId t anns (anns @ [newRect t bx by w h])"
  "appendsId t anns (anns @ [newCircle t cx cy r])"
  by (simp_all add: appendsId_def newMarker_def newText_def newRect_def newCircle_def)

lemma down_shape_earlier:
  "appendsId t (annotations st) (annotations (handleMouseDown b (Some p) r t st))
   \<or> annotations (handleMouseDown b (Some p) r t st) = annotations st"
  by (cases p)
    (simp add: handleMouseDown_def Let_def appendsId_new split: option.splits)

lemma up_shape_earlier:
  "appendsId t (annotations st) (annotations (handleMouseUp t st))
   \<or> annotations (handleMouseUp t st) = annotations st"
  by (simp add: handleMouseUp_def Let_def appendsId_new split: option.splits prod.splits)

lemma stepEarlier_shape:
  "(\<exists>t. eventTime e = [t] \<and> appendsId t (annotations st) (annotations (stepEarlier st e)))
   \<or> map ann_id (annotations (stepEarlier st e)) = map ann_id (annotations st)
   \<or> annotations (stepEarlier st e) = []"
proof (cases e)
  case (StageMouseDown b p r t)
  then show ?thesis using down_shape_earlier [of t st b p r] by auto
next
  case (StageMouseUp t)
  then show ?thesis using up_shape_earlier [of t st] by auto
next
  case (AnnotationDragEnd i ex ey)
  then show ?thesis by (simp add: dragAnnotation_def onDragEnd_ids)
qed (simp_all add: move_keeps_earlier selectAnnotation_def handleClearAnnotations_def
      updateSize_def)

lemma ids_invariant_earlier:
  assumes "sorted_wrt (<) (clock evs)" and "\<forall>t\<in>set (clock evs). b \<le> t"
    and "distinct (map ann_id (annotations st))"
    and "\<forall>a\<in>set (annotations st). ann_id a < b"
  shows "distinct (map ann_id (createdEarlier st evs)) \<and>
         (\<forall>a\<in>set (createdEarlier st evs). b \<le> ann_id a) \<and>
         distinct (map ann_id (annotations (runEarlier st evs))) \<and>
         set (map ann_id (annotations (runEarlier st evs)))
           \<subseteq> set (map ann_id (annotations st)) \<union> set (map ann_id (createdEarlier st evs))"
  using assms
proof (induction evs arbitrary: st b)
  case Nil
  then show ?case by simp
next
  case (Cons e evs)
  let ?st = "stepEarlier st e"
  have sorted: "sorted_wrt (<) (clock evs)"
    and later: "\<forall>t\<in>set (eventTime e). \<forall>u\<in>set (clock evs). t < u"
    using sorted_clock_Cons [OF Cons.prems(1)] by simp_all
  have from_b: "\<forall>t\<in>set (eventTime e). b \<le> t" "\<forall>t\<in>set (clock evs). b \<le> t"
    using Cons.prems(2) by (simp_all add: clock_def)
  consider (new) t where "eventTime e = [t]" "appendsId t (annotations st) (annotations ?st)"
    | (kept) "map ann_id (annotations ?st) = map ann_id (annotations st)"
    | (cleared) "annotations ?st = []"
    using stepEarlier_shape [of e st] by blast
  then show ?case
  proof cases
    case new
    then obtain a where a: "annotations ?st = annotations st @ [a]" "ann_id a = t"
      unfolding appendsId_def by blast
    have bt: "b \<le> t" using from_b(1) new(1) by simp
    have fresh: "ann_id a \<notin> set (map ann_id (annotations st))"
      using Cons.prems(4) bt a(2) by auto
    have d: "distinct (map ann_id (annotations ?st))"
      using Cons.prems(3) fresh by (simp add: a(1))
    have below: "\<forall>x\<in>set (annotations ?st). ann_id x < Suc t"
      using Cons.prems(4) bt a(2) by (auto simp add: a(1))
    have next_from: "\<forall>u\<in>set (clock evs). Suc t \<le> u"
      using later new(1) by auto
    note ih = Cons.IH [OF sorted next_from d below]
    have rest_from: "\<forall>x\<in>set (createdEarlier ?st evs). Suc t \<le> ann_id x"
      using ih by blast
    have a_not_rest: "ann_id a \<notin> set (map ann_id (createdEarlier ?st evs))"
      using rest_from a(2) by auto
    have c: "createdEarlier st (e # evs) = a # createdEarlier ?st evs"
      by (simp add: a(1) del: stepEarlier.simps)
    have rest_from_b: "\<forall>x\<in>set (createdEarlier ?st evs). b \<le> ann_id x"
      using rest_from bt by auto
    show ?thesis
      unfolding c using ih a_not_rest bt a(2) rest_from_b
      by (auto simp add: a(1) simp del: stepEarlier.simps)
  next
    case kept
    have len: "length (annotations ?st) = length (annotations st)"
      using kept by (metis length_map)
    have d: "distinct (map ann_id (annotations ?st))"
      using Cons.prems(3) kept by simp
    have below: "\<forall>x\<in>set (annotations ?st). ann_id x < b"
    proof
      fix x assume "x \<in> set (annotations ?st)"
      then have "ann_id x \<in> set (map ann_id (annotations st))"
        using kept by (metis image_eqI list.set_map)
      then show "ann_id x < b"
        using Cons.prems(4) by auto
    qed
    note ih = Cons.IH [OF sorted from_b(2) d below]
    have c: "createdEarlier st (e # evs) = createdEarlier ?st evs"
      by (simp add: len del: stepEarlier.simps)
    show ?thesis
      unfolding c using ih kept by (simp del: stepEarlier.simps)
  next
    case cleared
    have d: "distinct (map ann_id (annotations ?st))"
      and below: "\<forall>x\<in>set (annotations ?st). ann_id x < b"
      by (simp_all add: cleared)
    note ih = Cons.IH [OF sorted from_b(2) d below]
    have c: "createdEarlier st (e # evs) = createdEarlier ?st evs"
      by (simp add: cleared del: stepEarlier.simps)
    show ?thesis
      unfolding c using ih by (auto simp add: cleared simp del: stepEarlier.simps)
  qed
qed

text \<open>
  C4 (as amended).  When the clock readings of the pointer events strictly increase, then in
  every state reached from an empty list the ids in the list are pairwise distinct, every
  id in the list is the id of an annotation the sequence created, no id is issued twice
  (so the id of a deleted annotation is never given to a later one), and a drag-end leaves
  the id of every entry as it was.  This holds for KonvaCanvas.jsx and its earlier revision.
\<close>

theorem ids_unique_while_clock_advances:
  fixes st :: "string canvas" and st' :: "nat canvas"
  assumes "sorted_wrt (<) (clock evs)" and "annotations st = []" and "annotations st' = []"
  shows
   "distinct (map ann_id (annotations (run st evs))) \<and>
    distinct (map ann_id (created st evs)) \<and>
    set (map ann_id (annotations (run st evs))) \<subseteq> set (map ann_id (created st evs)) \<and>
    map ann_id (annotations (step (run st evs) (AnnotationDragEnd i ex ey)))
      = map ann_id (annotations (run st evs)) \<and>
    distinct (map ann_id (annotations (runEarlier st' evs))) \<and>
    distinct (map ann_id (createdEarlier st' evs)) \<and>
    set (map ann_id (annotations (runEarlier st' evs)))
      \<subseteq> set (map ann_id (createdEarlier st' evs)) \<and>
    map ann_id (annotations (stepEarlier (runEarlier st' evs) (AnnotationDragEnd i ex ey)))
      = map ann_id (annotations (runEarlier st' evs))"
proof -
  have zero: "\<forall>t\<in>set (clock evs). 0 \<le> t"
    by simp
  have k: "distinct (map ann_id (created st evs)) \<and>
         (\<forall>a\<in>set (created st evs). stampedFrom 0 (ann_id a)) \<and>
         distinct (map ann_id (annotations (run st evs))) \<and>
         set (map ann_id (annotations (run st evs)))
           \<subseteq> set (map ann_id (annotations st)) \<union> set (map ann_id (created st evs))"
    by (rule ids_invariant [OF assms(1) zero]) (simp_all add: assms(2))
  have e: "distinct (map ann_id (createdEarlier st' evs)) \<and>
         (\<forall>a\<in>set (createdEarlier st' evs). 0 \<le> ann_id a) \<and>
         distinct (map ann_id (annotations (runEarlier st' evs))) \<and>
         set (map ann_id (annotations (runEarlier st' evs)))
           \<subseteq> set (map ann_id (annotations st')) \<union> set (map ann_id (createdEarlier st' evs))"
    by (rule ids_invariant_earlier [OF assms(1) zero]) (simp_all add: assms(3))
  show ?thesis
    using k e by (simp add: assms(2,3) dragAnnotation_def onDragEnd_ids)
qed

theorem ids_unique_while_clock_advances_witness:
  "distinct (map ann_id (annotations
      (run (mounted MarkerT (800, 600) (Some (800, 600))) createClearCreate))) \<and>
   distinct (map ann_id (created (mounted MarkerT (800, 600) (Some (800, 600))) createClearCreate)) \<and>
   distinct (map ann_id (createdEarlier (mounted MarkerT (1000, 800) (Some (800, 600)))
      createClearCreate))"
proof -
  have h1: "sorted_wrt (<) (clock createClearCreate)"
    by (simp add: createClearCreate_def clock_def)
  have h2: "annotations (mounted MarkerT (800, 600) (Some (800, 600)) :: string canvas) = []"
    and h3: "annotations (mounted MarkerT (1000, 800) (Some (800, 600)) :: nat canvas) = []"
    by (simp_all add: mounted_def)
  show ?thesis
    using ids_unique_while_clock_advances [OF h1 h2 h3] by blast
qed

lemma two_rects_same_clock_earlier:
  "annotations (runEarlier (mounted RectT (1000, 800) (Some (800, 600)))
      (dragEvents (10, 10) [(100, 80)] 7 @ dragEvents (200, 200) [(300, 320)] 7))
   = [newRect 7 10 10 90 70, newRect 7 200 200 100 120]"
  by (simp add: drag_rect_earlier mounted_def finalPoint_def)

text \<open>
  C4 as stated fails when the clock does not advance between two commits: two rects
  committed at the reading 7 both get the id rect-7 (the id 7 in the earlier revision).
\<close>

theorem ids_coincide_at_equal_clock_counterexample:
  "map ann_id (annotations (run (mounted RectT (800, 600) (Some (800, 600)))
      (dragEvents (10, 10) [(100, 80)] 7 @ dragEvents (200, 200) [(300, 320)] 7)))
     = [''rect-7'', ''rect-7''] \<and>
   \<not> distinct (map ann_id (annotations (run (mounted RectT (800, 600) (Some (800, 600)))
      (dragEvents (10, 10) [(100, 80)] 7 @ dragEvents (200, 200) [(300, 320)] 7)))) \<and>
   map ann_id (annotations (runEarlier (mounted RectT (1000, 800) (Some (800, 600)))
      (dragEvents (10, 10) [(100, 80)] 7 @ dragEvents (200, 200) [(300, 320)] 7)))
     = [7, 7]"
  unfolding two_rects_same_clock two_rects_same_clock_earlier
  by (simp add: newRect_def)

end
